theory Spec2Isabelle
  imports Complex_Main "HOL-Library.AList"
begin

section \<open>Python values, exceptions and the library functions the service calls\<close>

text \<open>
  The chat service is Python: dictionaries travel between the models, the Redis client
  and the JSON frames of the WebSocket. A dictionary is an association list in insertion
  order; a value is one of the dynamic types below. A \<open>string\<close> stands for a Python
  \<open>str\<close>, one \<open>char\<close> per code point (code points below 256), so \<open>length\<close> is
  Python's \<open>len\<close>. A \<open>datetime\<close> is a timezone-aware instant, counted in
  microseconds from the epoch; Python floats are read as reals.
\<close>

type_synonym datetime = int

datatype pyval =
    PNone
  | PBool bool
  | PInt int
  | PFloat real
  | PStr string
  | PDatetime datetime
  | PList "pyval list"
  | PDict "(string \<times> pyval) list"

type_synonym pydict = "(string \<times> pyval) list"

datatype exn =
    ValidationError
  | ValueError
  | AttributeError
  | DataError
  | ConnectionError
  | JSONDecodeError
  | TransportError
  | WebSocketDisconnect
  | HTTPException nat

text \<open>
  What the standard library, pydantic and redis-py compute and the repository does not
  define: \<open>datetime.timestamp()\<close>, \<open>datetime.fromtimestamp(x, tz=utc)\<close> (None when
  it raises), \<open>datetime.isoformat()\<close>, pydantic's reading of a string as a datetime,
  the text redis-py stores for a float and for an int, and the stream of
  \<open>uuid.uuid4()\<close> results.
\<close>

record lib =
  dt_timestamp :: "datetime \<Rightarrow> real"
  dt_fromtimestamp :: "real \<Rightarrow> datetime option"
  dt_isoformat :: "datetime \<Rightarrow> string"
  parse_datetime :: "string \<Rightarrow> datetime option"
  repr_float :: "real \<Rightarrow> string"
  str_int :: "int \<Rightarrow> string"
  uuid4 :: "nat \<Rightarrow> string"

text \<open>Python truthiness (\<open>bool(v)\<close>), as \<open>if v\<close>, \<open>a or b\<close> and \<open>a and b\<close> use it.\<close>

fun truthy :: "pyval \<Rightarrow> bool" where
  "truthy PNone = False"
| "truthy (PBool b) = b"
| "truthy (PInt n) = (n \<noteq> 0)"
| "truthy (PFloat x) = (x \<noteq> 0)"
| "truthy (PStr s) = (s \<noteq> [])"
| "truthy (PDatetime d) = True"
| "truthy (PList xs) = (xs \<noteq> [])"
| "truthy (PDict kvs) = (kvs \<noteq> [])"

text \<open>\<open>isinstance(v, (int, float))\<close>: the number behind \<open>v\<close>; a bool is an int.\<close>

fun num_of :: "pyval \<Rightarrow> real option" where
  "num_of (PInt n) = Some (of_int n)"
| "num_of (PFloat x) = Some x"
| "num_of (PBool b) = Some (if b then 1 else 0)"
| "num_of _ = None"

text \<open>\<open>d.get(k, default)\<close> and \<open>d[k] = v\<close> on a dictionary.\<close>

definition dict_get :: "pydict \<Rightarrow> string \<Rightarrow> pyval \<Rightarrow> pyval" where
  "dict_get d k dflt = (case map_of d k of None \<Rightarrow> dflt | Some v \<Rightarrow> v)"

definition dict_set :: "pydict \<Rightarrow> string \<Rightarrow> pyval \<Rightarrow> pydict" where
  "dict_set d k v = AList.update k v d"

section \<open>models.py\<close>

datatype MessageType = TEXT | IMAGE | FILE | SYSTEM

fun MessageType_value :: "MessageType \<Rightarrow> string" where
  "MessageType_value TEXT = ''text''"
| "MessageType_value IMAGE = ''image''"
| "MessageType_value FILE = ''file''"
| "MessageType_value SYSTEM = ''system''"

text \<open>\<open>MessageType(v)\<close>: the member whose value is \<open>v\<close>, ValueError otherwise.\<close>

definition MessageType_of :: "pyval \<Rightarrow> exn + MessageType" where
  "MessageType_of v =
     (if v = PStr ''text'' then Inr TEXT
      else if v = PStr ''image'' then Inr IMAGE
      else if v = PStr ''file'' then Inr FILE
      else if v = PStr ''system'' then Inr SYSTEM
      else Inl ValueError)"

datatype UserStatus = ONLINE | OFFLINE | AWAY

fun UserStatus_value :: "UserStatus \<Rightarrow> string" where
  "UserStatus_value ONLINE = ''online''"
| "UserStatus_value OFFLINE = ''offline''"
| "UserStatus_value AWAY = ''away''"

definition UserStatus_of :: "pyval \<Rightarrow> exn + UserStatus" where
  "UserStatus_of v =
     (if v = PStr ''online'' then Inr ONLINE
      else if v = PStr ''offline'' then Inr OFFLINE
      else if v = PStr ''away'' then Inr AWAY
      else Inl ValueError)"

text \<open>
  \<open>class ChatMessage(BaseModel)\<close>. The field \<open>id\<close> is \<open>msg_id\<close> here (\<open>id\<close> is
  HOL's identity function).
\<close>

record ChatMessage =
  msg_id :: string
  dashboard_id :: string
  user_id :: string
  username :: string
  content :: string
  message_type :: MessageType
  timestamp :: datetime
  edited_at :: "datetime option"
  is_deleted :: bool
  reply_to :: "string option"

text \<open>
  pydantic's validators, as \<open>cls(**data)\<close> runs them in its default (lax) mode: a
  \<open>str\<close> field takes a string only; a datetime field takes a datetime, a number
  (seconds since the epoch) or a string; an optional field also takes None; a bool field
  takes a bool.
\<close>

fun validate_str :: "pyval \<Rightarrow> exn + string" where
  "validate_str (PStr s) = Inr s"
| "validate_str _ = Inl ValidationError"

fun validate_datetime :: "lib \<Rightarrow> pyval \<Rightarrow> exn + datetime" where
  "validate_datetime L (PDatetime d) = Inr d"
| "validate_datetime L (PStr s) =
     (case parse_datetime L s of None \<Rightarrow> Inl ValidationError | Some d \<Rightarrow> Inr d)"
| "validate_datetime L (PInt n) =
     (case dt_fromtimestamp L (of_int n) of None \<Rightarrow> Inl ValidationError | Some d \<Rightarrow> Inr d)"
| "validate_datetime L (PFloat x) =
     (case dt_fromtimestamp L x of None \<Rightarrow> Inl ValidationError | Some d \<Rightarrow> Inr d)"
| "validate_datetime L _ = Inl ValidationError"

fun validate_bool :: "pyval \<Rightarrow> exn + bool" where
  "validate_bool (PBool b) = Inr b"
| "validate_bool _ = Inl ValidationError"

fun validate_MessageType :: "pyval \<Rightarrow> exn + MessageType" where
  "validate_MessageType v =
     (case MessageType_of v of Inl e \<Rightarrow> Inl ValidationError | Inr t \<Rightarrow> Inr t)"

fun validate_UserStatus :: "pyval \<Rightarrow> exn + UserStatus" where
  "validate_UserStatus v =
     (case UserStatus_of v of Inl e \<Rightarrow> Inl ValidationError | Inr t \<Rightarrow> Inr t)"

text \<open>A required field, a field with a default, and an \<open>Optional[...] = None\<close> field.\<close>

definition required :: "(pyval \<Rightarrow> exn + 'a) \<Rightarrow> pydict \<Rightarrow> string \<Rightarrow> exn + 'a" where
  "required val d k = (case map_of d k of None \<Rightarrow> Inl ValidationError | Some v \<Rightarrow> val v)"

definition defaulted :: "(pyval \<Rightarrow> exn + 'a) \<Rightarrow> 'a \<Rightarrow> pydict \<Rightarrow> string \<Rightarrow> exn + 'a" where
  "defaulted val dflt d k = (case map_of d k of None \<Rightarrow> Inr dflt | Some v \<Rightarrow> val v)"

definition optional :: "(pyval \<Rightarrow> exn + 'a) \<Rightarrow> pydict \<Rightarrow> string \<Rightarrow> exn + 'a option" where
  "optional val d k =
     (case map_of d k of
        None \<Rightarrow> Inr None
      | Some PNone \<Rightarrow> Inr None
      | Some v \<Rightarrow> (case val v of Inl e \<Rightarrow> Inl e | Inr x \<Rightarrow> Inr (Some x)))"

text \<open>Sequencing of steps that may raise: the first exception ends the computation.\<close>

definition bind :: "exn + 'a \<Rightarrow> ('a \<Rightarrow> exn + 'b) \<Rightarrow> exn + 'b" where
  "bind r f = (case r of Inl e \<Rightarrow> Inl e | Inr x \<Rightarrow> f x)"

text \<open>
  \<open>ChatMessage(**data)\<close>: \<open>fresh\<close> is what \<open>uuid.uuid4()\<close> returns and \<open>now\<close> what
  \<open>datetime.now(timezone.utc)\<close> returns, for the two default factories. \<open>content\<close>
  has \<open>max_length=1000\<close>. Keys that are no field are ignored.
\<close>

definition ChatMessage_init :: "lib \<Rightarrow> string \<Rightarrow> datetime \<Rightarrow> pydict \<Rightarrow> exn + ChatMessage" where
  "ChatMessage_init L fresh now d =
     bind (defaulted validate_str fresh d ''id'') (\<lambda>i.
     bind (required validate_str d ''dashboard_id'') (\<lambda>dash.
     bind (required validate_str d ''user_id'') (\<lambda>u.
     bind (required validate_str d ''username'') (\<lambda>n.
     bind (required validate_str d ''content'') (\<lambda>c.
     bind (if length c > 1000 then Inl ValidationError else Inr c) (\<lambda>c.
     bind (defaulted validate_MessageType TEXT d ''message_type'') (\<lambda>t.
     bind (defaulted (validate_datetime L) now d ''timestamp'') (\<lambda>ts.
     bind (optional (validate_datetime L) d ''edited_at'') (\<lambda>ed.
     bind (defaulted validate_bool False d ''is_deleted'') (\<lambda>del.
     bind (optional validate_str d ''reply_to'') (\<lambda>r.
       Inr \<lparr> msg_id = i, dashboard_id = dash, user_id = u, username = n, content = c,
             message_type = t, timestamp = ts, edited_at = ed, is_deleted = del,
             reply_to = r \<rparr>)))))))))))"

text \<open>\<open>ChatMessage.to_dict\<close>\<close>

definition ChatMessage_to_dict :: "lib \<Rightarrow> ChatMessage \<Rightarrow> pydict" where
  "ChatMessage_to_dict L m =
     [(''id'', PStr (msg_id m)),
      (''dashboard_id'', PStr (dashboard_id m)),
      (''user_id'', PStr (user_id m)),
      (''username'', PStr (username m)),
      (''content'', PStr (content m)),
      (''message_type'', PStr (MessageType_value (message_type m))),
      (''timestamp'', PFloat (dt_timestamp L (timestamp m))),
      (''is_deleted'', PStr (if is_deleted m then ''1'' else ''0''))]
     @ (case edited_at m of None \<Rightarrow> [] | Some e \<Rightarrow> [(''edited_at'', PFloat (dt_timestamp L e))])
     @ (case reply_to m of None \<Rightarrow> [] | Some r \<Rightarrow> [(''reply_to'', PStr r)])"

text \<open>
  The conversion \<open>from_dict\<close> applies to a timestamp field before validation:
  \<open>if k in data and isinstance(data[k], (int, float)): data[k] = fromtimestamp(data[k])\<close>;
  for \<open>edited_at\<close> the value must also be truthy.
\<close>

definition convert_timestamp :: "lib \<Rightarrow> bool \<Rightarrow> string \<Rightarrow> pydict \<Rightarrow> exn + pydict" where
  "convert_timestamp L need_truthy k d =
     (case map_of d k of
        None \<Rightarrow> Inr d
      | Some v \<Rightarrow>
          (if need_truthy \<and> \<not> truthy v then Inr d
           else case num_of v of
                  None \<Rightarrow> Inr d
                | Some x \<Rightarrow>
                    (case dt_fromtimestamp L x of
                       None \<Rightarrow> Inl ValueError
                     | Some t \<Rightarrow> Inr (dict_set d k (PDatetime t)))))"

text \<open>\<open>if k in data: data[k] = data[k] == "1"\<close>\<close>

definition convert_flag :: "string \<Rightarrow> pydict \<Rightarrow> pydict" where
  "convert_flag k d =
     (case map_of d k of None \<Rightarrow> d | Some v \<Rightarrow> dict_set d k (PBool (v = PStr ''1'')))"

text \<open>\<open>ChatMessage.from_dict\<close>\<close>

definition ChatMessage_from_dict :: "lib \<Rightarrow> string \<Rightarrow> datetime \<Rightarrow> pydict \<Rightarrow> exn + ChatMessage" where
  "ChatMessage_from_dict L fresh now d =
     bind (convert_timestamp L False ''timestamp'' d) (\<lambda>d1.
     bind (convert_timestamp L True ''edited_at'' d1) (\<lambda>d2.
       ChatMessage_init L fresh now (convert_flag ''is_deleted'' d2)))"

text \<open>\<open>class ConnectedUser(BaseModel)\<close>; its fields carry the prefix \<open>cu_\<close> where
  \<open>ChatMessage\<close> has a field of the same name.\<close>

record ConnectedUser =
  cu_user_id :: string
  cu_dashboard_id :: string
  cu_username :: string
  status :: UserStatus
  connected_at :: datetime
  last_seen :: datetime
  socket_id :: "string option"

definition ConnectedUser_init :: "lib \<Rightarrow> datetime \<Rightarrow> pydict \<Rightarrow> exn + ConnectedUser" where
  "ConnectedUser_init L now d =
     bind (required validate_str d ''user_id'') (\<lambda>u.
     bind (required validate_str d ''dashboard_id'') (\<lambda>dash.
     bind (required validate_str d ''username'') (\<lambda>n.
     bind (defaulted validate_UserStatus ONLINE d ''status'') (\<lambda>st.
     bind (defaulted (validate_datetime L) now d ''connected_at'') (\<lambda>c.
     bind (defaulted (validate_datetime L) now d ''last_seen'') (\<lambda>l.
     bind (optional validate_str d ''socket_id'') (\<lambda>sock.
       Inr \<lparr> cu_user_id = u, cu_dashboard_id = dash, cu_username = n, status = st,
             connected_at = c, last_seen = l, socket_id = sock \<rparr>)))))))"

text \<open>\<open>ConnectedUser.to_dict\<close>\<close>

definition ConnectedUser_to_dict :: "lib \<Rightarrow> ConnectedUser \<Rightarrow> pydict" where
  "ConnectedUser_to_dict L u =
     [(''user_id'', PStr (cu_user_id u)),
      (''dashboard_id'', PStr (cu_dashboard_id u)),
      (''username'', PStr (cu_username u)),
      (''status'', PStr (UserStatus_value (status u))),
      (''connected_at'', PFloat (dt_timestamp L (connected_at u))),
      (''last_seen'', PFloat (dt_timestamp L (last_seen u)))]
     @ (case socket_id u of None \<Rightarrow> [] | Some x \<Rightarrow> [(''socket_id'', PStr x)])"

text \<open>\<open>ConnectedUser.from_dict\<close>\<close>

definition ConnectedUser_from_dict :: "lib \<Rightarrow> datetime \<Rightarrow> pydict \<Rightarrow> exn + ConnectedUser" where
  "ConnectedUser_from_dict L now d =
     bind (convert_timestamp L False ''connected_at'' d) (\<lambda>d1.
     bind (convert_timestamp L False ''last_seen'' d1) (\<lambda>d2.
       ConnectedUser_init L now d2))"

section \<open>config.py\<close>

record settings =
  max_message_length :: int
  max_users_per_room :: int
  message_history_limit :: int

definition default_settings :: settings where
  "default_settings =
     \<lparr> max_message_length = 1000, max_users_per_room = 100, message_history_limit = 50 \<rparr>"

section \<open>The process state: Redis, the registry, the transports\<close>

text \<open>
  A \<open>WebSocket\<close> object is identified by the text \<open>str(id(websocket))\<close>. A log record
  is its level and its message, without the interpolated values; only warnings and errors
  are kept.
\<close>

type_synonym websocket = string

datatype level = WARNING | ERROR

text \<open>
  The Redis server (\<open>database.client\<close>, with \<open>decode_responses=True\<close>): every stored
  value is text. The service addresses hashes under \<open>message:\<close>, \<open>user:\<close> and
  \<open>room:\<close>, lists under \<open>messages:\<close> and sets under \<open>connected_users:\<close>, so the three
  types are three tables over the key (\<open>DEL\<close> clears all three); an empty hash, list or set is a key that does not
  exist. \<open>redis_sets\<close> lists the members in the order \<open>smembers\<close> returns them. \<open>redis_ttl\<close> is
  the expiry set on a key, in seconds; time does not pass inside a call. \<open>redis_up\<close>
  says whether the server answers: every command raises when it does not.

  \<open>active_connections\<close> and \<open>connection_info\<close> are the two dictionaries of the
  \<open>ConnectionManager\<close>. \<open>closed_sockets\<close> holds the transports on which \<open>send_text\<close>
  raises; \<open>sent\<close> is every frame delivered, in order, before \<open>json.dumps\<close> renders
  it. \<open>clock\<close> is what \<open>datetime.now(timezone.utc)\<close> returns and \<open>uuid_count\<close> the
  number of \<open>uuid4()\<close> results used so far.
\<close>

record state =
  redis_up :: bool
  redis_hashes :: "string \<Rightarrow> (string \<times> string) list"
  redis_lists :: "string \<Rightarrow> string list"
  redis_sets :: "string \<Rightarrow> string list"
  redis_ttl :: "string \<Rightarrow> nat option"
  active_connections :: "string \<Rightarrow> (string \<times> websocket) list option"
  connection_info :: "(websocket \<times> string \<times> string \<times> string) list"
  closed_sockets :: "websocket set"
  sent :: "(websocket \<times> pyval) list"
  log_records :: "(level \<times> string) list"
  clock :: datetime
  uuid_count :: nat

definition logger_error :: "string \<Rightarrow> state \<Rightarrow> state" where
  "logger_error txt s = s\<lparr>log_records := log_records s @ [(ERROR, txt)]\<rparr>"

definition logger_warning :: "string \<Rightarrow> state \<Rightarrow> state" where
  "logger_warning txt s = s\<lparr>log_records := log_records s @ [(WARNING, txt)]\<rparr>"

text \<open>The keys the service builds (section 6 of the specification).\<close>

definition message_key :: "string \<Rightarrow> string \<Rightarrow> string" where
  "message_key dashboard i = ''message:'' @ dashboard @ '':'' @ i"

definition messages_key :: "string \<Rightarrow> string" where
  "messages_key dashboard = ''messages:'' @ dashboard"

definition user_key :: "string \<Rightarrow> string \<Rightarrow> string" where
  "user_key dashboard user = ''user:'' @ dashboard @ '':'' @ user"

definition connected_users_key :: "string \<Rightarrow> string" where
  "connected_users_key dashboard = ''connected_users:'' @ dashboard"

text \<open>\<open>ChatMessage.get_redis_key\<close> and \<open>ConnectedUser.get_redis_key\<close>\<close>

definition ChatMessage_get_redis_key :: "ChatMessage \<Rightarrow> string" where
  "ChatMessage_get_redis_key m = message_key (dashboard_id m) (msg_id m)"

definition ConnectedUser_get_redis_key :: "ConnectedUser \<Rightarrow> string" where
  "ConnectedUser_get_redis_key u = user_key (cu_dashboard_id u) (cu_user_id u)"

subsection \<open>Redis commands\<close>

text \<open>How redis-py encodes an argument: text, int and float only (DataError otherwise).\<close>

fun redis_encode :: "lib \<Rightarrow> pyval \<Rightarrow> exn + string" where
  "redis_encode L (PStr s) = Inr s"
| "redis_encode L (PInt n) = Inr (str_int L n)"
| "redis_encode L (PFloat x) = Inr (repr_float L x)"
| "redis_encode L _ = Inl DataError"

fun redis_encode_mapping :: "lib \<Rightarrow> pydict \<Rightarrow> exn + (string \<times> string) list" where
  "redis_encode_mapping L [] = Inr []"
| "redis_encode_mapping L ((k, v) # kvs) =
     bind (redis_encode L v) (\<lambda>x.
     bind (redis_encode_mapping L kvs) (\<lambda>xs. Inr ((k, x) # xs)))"

definition key_exists :: "state \<Rightarrow> string \<Rightarrow> bool" where
  "key_exists s k = (redis_hashes s k \<noteq> [] \<or> redis_lists s k \<noteq> [] \<or> redis_sets s k \<noteq> [])"

text \<open>\<open>HSET key field value [field value ...]\<close>: sets the given fields, keeps the others.\<close>

definition hset :: "lib \<Rightarrow> state \<Rightarrow> string \<Rightarrow> pydict \<Rightarrow> exn + state" where
  "hset L s k mapping =
     (if mapping = [] then Inl DataError
      else bind (redis_encode_mapping L mapping) (\<lambda>kvs.
        if \<not> redis_up s then Inl ConnectionError
        else Inr (s\<lparr>redis_hashes := (redis_hashes s)(k := fold (\<lambda>(f, v). AList.update f v) kvs (redis_hashes s k))\<rparr>)))"

definition hgetall :: "state \<Rightarrow> string \<Rightarrow> exn + pydict" where
  "hgetall s k =
     (if \<not> redis_up s then Inl ConnectionError
      else Inr (map (\<lambda>(f, v). (f, PStr v)) (redis_hashes s k)))"

definition rpush :: "state \<Rightarrow> string \<Rightarrow> string \<Rightarrow> exn + state" where
  "rpush s k v =
     (if \<not> redis_up s then Inl ConnectionError
      else Inr (s\<lparr>redis_lists := (redis_lists s)(k := redis_lists s k @ [v])\<rparr>))"

text \<open>
  The range \<open>LRANGE\<close> and \<open>LTRIM\<close> select: a negative index counts from the tail, the
  start is clamped to 0 and the stop to the last element, and the range is empty when
  the start lies behind the stop or behind the list.
\<close>

definition redis_range :: "string list \<Rightarrow> int \<Rightarrow> int \<Rightarrow> string list" where
  "redis_range xs start stop =
     (let n = int (length xs);
          a = (if start < 0 then n + start else start);
          b = (if stop < 0 then n + stop else stop);
          a = (if a < 0 then 0 else a)
      in if a > b \<or> a \<ge> n then []
         else let b = (if b \<ge> n then n - 1 else b)
              in take (nat (b - a + 1)) (drop (nat a) xs))"

definition lrange :: "state \<Rightarrow> string \<Rightarrow> int \<Rightarrow> int \<Rightarrow> exn + string list" where
  "lrange s k start stop =
     (if \<not> redis_up s then Inl ConnectionError
      else Inr (redis_range (redis_lists s k) start stop))"

definition ltrim :: "state \<Rightarrow> string \<Rightarrow> int \<Rightarrow> int \<Rightarrow> exn + state" where
  "ltrim s k start stop =
     (if \<not> redis_up s then Inl ConnectionError
      else let xs = redis_range (redis_lists s k) start stop
           in Inr (s\<lparr>redis_lists := (redis_lists s)(k := xs),
                     redis_ttl := (if xs = [] \<and> redis_hashes s k = [] \<and> redis_sets s k = []
                             then (redis_ttl s)(k := None) else redis_ttl s)\<rparr>))"

definition expire :: "state \<Rightarrow> string \<Rightarrow> nat \<Rightarrow> exn + state" where
  "expire s k secs =
     (if \<not> redis_up s then Inl ConnectionError
      else Inr (if key_exists s k then s\<lparr>redis_ttl := (redis_ttl s)(k \<mapsto> secs)\<rparr> else s))"

text \<open>\<open>DEL key\<close>: the number of keys removed (0 or 1) and the new state.\<close>

definition redis_delete :: "state \<Rightarrow> string \<Rightarrow> exn + (int \<times> state)" where
  "redis_delete s k =
     (if \<not> redis_up s then Inl ConnectionError
      else Inr (if key_exists s k then 1 else 0,
                s\<lparr>redis_hashes := (redis_hashes s)(k := []), redis_lists := (redis_lists s)(k := []),
                  redis_sets := (redis_sets s)(k := []), redis_ttl := (redis_ttl s)(k := None)\<rparr>))"

definition sadd :: "state \<Rightarrow> string \<Rightarrow> string \<Rightarrow> exn + state" where
  "sadd s k v =
     (if \<not> redis_up s then Inl ConnectionError
      else Inr (if v \<in> set (redis_sets s k) then s else s\<lparr>redis_sets := (redis_sets s)(k := redis_sets s k @ [v])\<rparr>))"

definition srem :: "state \<Rightarrow> string \<Rightarrow> string \<Rightarrow> exn + state" where
  "srem s k v =
     (if \<not> redis_up s then Inl ConnectionError
      else let xs = removeAll v (redis_sets s k)
           in Inr (s\<lparr>redis_sets := (redis_sets s)(k := xs),
                     redis_ttl := (if xs = [] \<and> redis_hashes s k = [] \<and> redis_lists s k = []
                             then (redis_ttl s)(k := None) else redis_ttl s)\<rparr>))"

definition smembers :: "state \<Rightarrow> string \<Rightarrow> exn + string list" where
  "smembers s k = (if \<not> redis_up s then Inl ConnectionError else Inr (redis_sets s k))"

subsection \<open>The transport\<close>

text \<open>\<open>websocket.send_text(message)\<close>\<close>

definition send_text :: "state \<Rightarrow> websocket \<Rightarrow> pyval \<Rightarrow> exn + state" where
  "send_text s ws message =
     (if ws \<in> closed_sockets s then Inl TransportError
      else Inr (s\<lparr>sent := sent s @ [(ws, message)]\<rparr>))"

text \<open>\<open>websocket.accept()\<close>\<close>

definition accept :: "state \<Rightarrow> websocket \<Rightarrow> exn + state" where
  "accept s ws = (if ws \<in> closed_sockets s then Inl TransportError else Inr s)"

text \<open>\<open>websocket.close()\<close>\<close>

definition close :: "state \<Rightarrow> websocket \<Rightarrow> state" where
  "close s ws = s\<lparr>closed_sockets := insert ws (closed_sockets s)\<rparr>"

section \<open>websocket\_manager.py\<close>

text \<open>The frames \<open>broadcast_user_joined\<close>, \<open>broadcast_user_left\<close> and
  \<open>broadcast_typing\<close> build.\<close>

definition user_joined_message :: "lib \<Rightarrow> state \<Rightarrow> string \<Rightarrow> pyval" where
  "user_joined_message L s name =
     PDict [(''type'', PStr ''user_joined''),
            (''data'', PDict [(''username'', PStr name),
                              (''timestamp'', PStr (dt_isoformat L (clock s)))])]"

definition user_left_message :: "lib \<Rightarrow> state \<Rightarrow> string \<Rightarrow> pyval" where
  "user_left_message L s name =
     PDict [(''type'', PStr ''user_left''),
            (''data'', PDict [(''username'', PStr name),
                              (''timestamp'', PStr (dt_isoformat L (clock s)))])]"

definition typing_message :: "lib \<Rightarrow> state \<Rightarrow> string \<Rightarrow> string \<Rightarrow> pyval \<Rightarrow> pyval" where
  "typing_message L s user name is_typing =
     PDict [(''type'', PStr ''typing''),
            (''data'', PDict [(''user_id'', PStr user),
                              (''username'', PStr name),
                              (''is_typing'', is_typing),
                              (''timestamp'', PStr (dt_isoformat L (clock s)))])]"

text \<open>\<open>if exclude_user_id and user_id == exclude_user_id: continue\<close>\<close>

definition excluded :: "string option \<Rightarrow> string \<Rightarrow> bool" where
  "excluded exclude_user_id user =
     (case exclude_user_id of None \<Rightarrow> False | Some x \<Rightarrow> x \<noteq> [] \<and> user = x)"

text \<open>
  The first loop of \<open>broadcast_to_dashboard\<close>: one \<open>send_text\<close> per connection of the
  room that is not excluded; a send that raises is logged and its websocket appended to
  \<open>disconnected_users\<close>.
\<close>

fun send_loop ::
  "state \<Rightarrow> (string \<times> websocket) list \<Rightarrow> pyval \<Rightarrow> string option \<Rightarrow> websocket list
     \<Rightarrow> state \<times> websocket list" where
  "send_loop s [] message ex disconnected_users = (s, disconnected_users)"
| "send_loop s ((user, ws) # rest) message ex disconnected_users =
     (if excluded ex user then send_loop s rest message ex disconnected_users
      else case send_text s ws message of
             Inr s' \<Rightarrow> send_loop s' rest message ex disconnected_users
           | Inl e \<Rightarrow>
               send_loop (logger_error ''Error sending message to user'' s) rest message ex
                 (disconnected_users @ [ws]))"

text \<open>The registry part of \<open>disconnect\<close>: the three \<open>del\<close> statements.\<close>

definition unregister :: "state \<Rightarrow> websocket \<Rightarrow> string \<Rightarrow> string \<Rightarrow> state" where
  "unregister s ws dashboard user =
     s\<lparr>active_connections :=
         (case active_connections s dashboard of
            None \<Rightarrow> active_connections s
          | Some conns \<Rightarrow>
              (let conns' = AList.delete user conns
               in if conns' = [] then (active_connections s)(dashboard := None)
                  else (active_connections s)(dashboard \<mapsto> conns'))),
       connection_info := AList.delete ws (connection_info s)\<rparr>"

text \<open>The Redis part of \<open>disconnect\<close>, up to the announcement.\<close>

definition forget_presence :: "state \<Rightarrow> string \<Rightarrow> string \<Rightarrow> exn + state" where
  "forget_presence s dashboard user =
     bind (redis_delete s (user_key dashboard user)) (\<lambda>(n, s1).
       srem s1 (connected_users_key dashboard) user)"

text \<open>
  \<open>ConnectionManager.disconnect\<close> and \<open>ConnectionManager.broadcast_to_dashboard\<close> call
  each other: a failed send disconnects the websocket, and a disconnect announces
  \<open>user_left\<close> to the room (the body of \<open>broadcast_user_left\<close>). \<open>disconnect_each\<close> is
  the second loop of \<open>broadcast_to_dashboard\<close>, over \<open>disconnected_users\<close>.
\<close>

function disconnect :: "lib \<Rightarrow> state \<Rightarrow> websocket \<Rightarrow> state"
  and broadcast_to_dashboard :: "lib \<Rightarrow> state \<Rightarrow> string \<Rightarrow> pyval \<Rightarrow> string option \<Rightarrow> state"
  and disconnect_each :: "lib \<Rightarrow> state \<Rightarrow> websocket list \<Rightarrow> state" where
  "disconnect L s ws =
     (case map_of (connection_info s) ws of
        None \<Rightarrow> s
      | Some (dashboard, user, name) \<Rightarrow>
          (case forget_presence (unregister s ws dashboard user) dashboard user of
             Inl e \<Rightarrow>
               logger_error ''Error updating disconnected user''
                 (unregister s ws dashboard user)
           | Inr s' \<Rightarrow>
               broadcast_to_dashboard L s' dashboard (user_left_message L s' name) None))"
| "broadcast_to_dashboard L s dashboard message ex =
     (case active_connections s dashboard of
        None \<Rightarrow> s
      | Some connections \<Rightarrow>
          disconnect_each L (fst (send_loop s connections message ex []))
            (snd (send_loop s connections message ex [])))"
| "disconnect_each L s [] = s"
| "disconnect_each L s (ws # rest) = disconnect_each L (disconnect L s ws) rest"
  by pat_completeness auto


text \<open>
  Every call shrinks \<open>connection_info\<close> or leaves it as it is, and \<open>disconnect\<close> of a
  known websocket removes an entry before it announces: the nesting ends.
\<close>

lemma send_loop_connection_info:
  "connection_info (fst (send_loop s conns m ex acc)) = connection_info s"
  by (induction s conns m ex acc rule: send_loop.induct)
     (auto simp: send_text_def logger_error_def split: sum.splits)

lemma forget_presence_connection_info:
  "forget_presence s d u = Inr s' \<Longrightarrow> connection_info s' = connection_info s"
  by (auto simp: forget_presence_def bind_def redis_delete_def srem_def Let_def split: if_splits)

lemma length_delete_le: "length (AList.delete k xs) \<le> length xs"
  by (induction xs) auto

lemma length_delete_less: "map_of xs k = Some v \<Longrightarrow> length (AList.delete k xs) < length xs"
  by (induction xs) (auto split: if_splits simp: le_imp_less_Suc length_delete_le)

lemma connection_info_unregister:
  "connection_info (unregister s ws d u) = AList.delete ws (connection_info s)"
  by (simp add: unregister_def)

lemma connection_info_le_dom:
  "disconnect_broadcast_to_dashboard_disconnect_each_dom (Inl (L, s, ws)) \<Longrightarrow>
     length (connection_info (disconnect L s ws)) \<le> length (connection_info s)"
  "disconnect_broadcast_to_dashboard_disconnect_each_dom (Inr (Inl (L, s, d, m, ex))) \<Longrightarrow>
     length (connection_info (broadcast_to_dashboard L s d m ex)) \<le> length (connection_info s)"
  "disconnect_broadcast_to_dashboard_disconnect_each_dom (Inr (Inr (L, s, wss))) \<Longrightarrow>
     length (connection_info (disconnect_each L s wss)) \<le> length (connection_info s)"
proof (induct rule: disconnect_broadcast_to_dashboard_disconnect_each.pinduct)
  case (1 L s ws)
  show ?case
  proof (cases "map_of (connection_info s) ws")
    case None
    then show ?thesis using 1(1) by (simp add: disconnect.psimps)
  next
    case (Some t)
    obtain d u n where t: "t = (d, u, n)" by (cases t) auto
    show ?thesis
    proof (cases "forget_presence (unregister s ws d u) d u")
      case (Inl e)
      then show ?thesis using 1(1) Some t
        by (simp add: disconnect.psimps logger_error_def length_delete_le
            connection_info_unregister)
    next
      case (Inr s')
      have "length (connection_info (broadcast_to_dashboard L s' d (user_left_message L s' n) None))
              \<le> length (connection_info s')"
      proof -
        have m: "map_of (connection_info s) ws = Some (d, u, n)" using Some t by simp
        show ?thesis by (rule 1(2)[OF m refl refl Inr])
      qed
      also have "\<dots> \<le> length (connection_info s)"
        using forget_presence_connection_info[OF Inr]
        by (simp add: length_delete_le connection_info_unregister)
      finally show ?thesis using 1(1) Some t Inr by (simp add: disconnect.psimps)
    qed
  qed
next
  case (2 L s dashboard message ex)
  then show ?case
    by (cases "active_connections s dashboard")
       (auto simp: broadcast_to_dashboard.psimps send_loop_connection_info)
next
  case (3 L s)
  then show ?case by (simp add: disconnect_each.psimps)
next
  case (4 L s ws rest)
  then show ?case by (simp add: disconnect_each.psimps)
qed

termination disconnect
proof (relation "inv_image (less_than <*lex*> less_than <*lex*> less_than)
    (\<lambda>x. case x of
       Inl (L, s, ws) \<Rightarrow> (length (connection_info s), 0::nat, 0::nat)
     | Inr (Inl (L, s, d, m, ex)) \<Rightarrow> (length (connection_info s), 2, 0)
     | Inr (Inr (L, s, wss)) \<Rightarrow> (length (connection_info s), 1, length wss))", goal_cases)
  case 1
  then show ?case by auto
next
  case (2 L s ws x2 x y xa ya b)
  then show ?case
    using forget_presence_connection_info[of "unregister s ws x xa" x xa b]
    by (simp add: length_delete_less connection_info_unregister)
next
  case (3 L s dashboard message ex x2)
  then show ?case by (simp add: case_prod_beta send_loop_connection_info)
next
  case (4 L s ws rest)
  then show ?case by simp
next
  case (5 L s ws rest)
  then show ?case using connection_info_le_dom(1)[of L s ws] by auto
qed

text \<open>\<open>ConnectionManager.broadcast_user_joined\<close>\<close>

definition broadcast_user_joined :: "lib \<Rightarrow> state \<Rightarrow> string \<Rightarrow> string \<Rightarrow> state" where
  "broadcast_user_joined L s dashboard name =
     broadcast_to_dashboard L s dashboard (user_joined_message L s name) None"

text \<open>\<open>ConnectionManager.broadcast_user_left\<close>\<close>

definition broadcast_user_left :: "lib \<Rightarrow> state \<Rightarrow> string \<Rightarrow> string \<Rightarrow> state" where
  "broadcast_user_left L s dashboard name =
     broadcast_to_dashboard L s dashboard (user_left_message L s name) None"

text \<open>\<open>ConnectionManager.broadcast_typing\<close>\<close>

definition broadcast_typing :: "lib \<Rightarrow> state \<Rightarrow> string \<Rightarrow> string \<Rightarrow> string \<Rightarrow> pyval \<Rightarrow> state" where
  "broadcast_typing L s dashboard user name is_typing =
     broadcast_to_dashboard L s dashboard (typing_message L s user name is_typing) (Some user)"

text \<open>\<open>ConnectionManager.broadcast_message\<close>: the frame, then the broadcast with no
  \<open>exclude_user_id\<close>. Nothing in its \<open>try\<close> block can raise.\<close>

definition chat_message_frame :: "lib \<Rightarrow> ChatMessage \<Rightarrow> pyval" where
  "chat_message_frame L m =
     PDict [(''type'', PStr ''chat_message''),
            (''data'', PDict ([(''id'', PStr (msg_id m)),
                               (''dashboard_id'', PStr (dashboard_id m)),
                               (''user_id'', PStr (user_id m)),
                               (''username'', PStr (username m)),
                               (''content'', PStr (content m)),
                               (''message_type'', PStr (MessageType_value (message_type m))),
                               (''timestamp'', PStr (dt_isoformat L (timestamp m)))]
                              @ (case reply_to m of None \<Rightarrow> []
                                 | Some r \<Rightarrow> [(''reply_to'', PStr r)])))]"

definition broadcast_message :: "lib \<Rightarrow> state \<Rightarrow> ChatMessage \<Rightarrow> state" where
  "broadcast_message L s m =
     broadcast_to_dashboard L s (dashboard_id m) (chat_message_frame L m) None"

text \<open>
  \<open>ConnectionManager.connect\<close>: accept, register under (dashboard, user) and in the
  reverse dictionary, then, inside its \<open>try\<close>, write the presence record and announce
  \<open>user_joined\<close>; an exception there is logged.
\<close>

definition register :: "state \<Rightarrow> websocket \<Rightarrow> string \<Rightarrow> string \<Rightarrow> string \<Rightarrow> state" where
  "register s ws dashboard user name =
     s\<lparr>active_connections :=
         (active_connections s)(dashboard \<mapsto>
            AList.update user ws
              (case active_connections s dashboard of None \<Rightarrow> [] | Some conns \<Rightarrow> conns)),
       connection_info := AList.update ws (dashboard, user, name) (connection_info s)\<rparr>"

definition connect ::
  "lib \<Rightarrow> state \<Rightarrow> websocket \<Rightarrow> string \<Rightarrow> string \<Rightarrow> string \<Rightarrow> exn + state" where
  "connect L s ws dashboard user name =
     bind (accept s ws) (\<lambda>s0.
       let s1 = register s0 ws dashboard user name;
           connected_user =
             \<lparr> cu_user_id = user, cu_dashboard_id = dashboard, cu_username = name,
               status = ONLINE, connected_at = clock s1, last_seen = clock s1,
               socket_id = Some ws \<rparr>;
           user_key = ConnectedUser_get_redis_key connected_user
       in Inr (case bind (hset L s1 user_key (ConnectedUser_to_dict L connected_user)) (\<lambda>s2.
                    bind (sadd s2 (connected_users_key dashboard) user) (\<lambda>s3.
                      expire s3 user_key (60 * 60))) of
                 Inl e \<Rightarrow> logger_error ''Error saving connected user'' s1
               | Inr s4 \<Rightarrow> broadcast_user_joined L s4 dashboard name))"

text \<open>\<open>ConnectionManager.get_connected_users\<close> and \<open>get_connection_count\<close>\<close>

definition get_connected_users :: "state \<Rightarrow> string \<Rightarrow> string list" where
  "get_connected_users s dashboard =
     (case active_connections s dashboard of None \<Rightarrow> [] | Some conns \<Rightarrow> map fst conns)"

definition get_connection_count :: "state \<Rightarrow> string \<Rightarrow> int" where
  "get_connection_count s dashboard =
     (case active_connections s dashboard of None \<Rightarrow> 0 | Some conns \<Rightarrow> int (length conns))"

section \<open>routes/chat\_routes.py\<close>

subsection \<open>Redis helper functions\<close>

text \<open>\<open>save_message_to_redis\<close>\<close>

definition save_message_to_redis :: "lib \<Rightarrow> settings \<Rightarrow> state \<Rightarrow> ChatMessage \<Rightarrow> exn + state" where
  "save_message_to_redis L cfg s message =
     (let key = ChatMessage_get_redis_key message;
          list_key = messages_key (dashboard_id message)
      in bind (hset L s key (ChatMessage_to_dict L message)) (\<lambda>s1.
         bind (rpush s1 list_key (msg_id message)) (\<lambda>s2.
         bind (ltrim s2 list_key (- message_history_limit cfg) (- 1)) (\<lambda>s3.
           expire s3 key (30 * 24 * 60 * 60)))))"

text \<open>
  A \<open>ChatMessage\<close> that is built draws its default id from the uuid stream; the position
  moves on after every construction.
\<close>

definition next_uuid :: "state \<Rightarrow> state" where
  "next_uuid s = s\<lparr>uuid_count := Suc (uuid_count s)\<rparr>"

text \<open>
  The loop of \<open>get_messages_from_redis\<close>: a hash that is empty is skipped, one that
  \<open>from_dict\<close> rejects is logged and skipped.
\<close>

fun messages_loop ::
  "lib \<Rightarrow> string \<Rightarrow> state \<Rightarrow> ChatMessage list \<Rightarrow> string list
     \<Rightarrow> exn + (ChatMessage list \<times> state)" where
  "messages_loop L dashboard s messages [] = Inr (messages, s)"
| "messages_loop L dashboard s messages (i # message_ids) =
     bind (hgetall s (message_key dashboard i)) (\<lambda>message_data.
       if message_data \<noteq> [] then
         (case ChatMessage_from_dict L (uuid4 L (uuid_count s)) (clock s) message_data of
            Inr m \<Rightarrow> messages_loop L dashboard (next_uuid s) (messages @ [m]) message_ids
          | Inl e \<Rightarrow>
              messages_loop L dashboard (logger_error ''Error parsing message'' (next_uuid s))
                messages message_ids)
       else messages_loop L dashboard s messages message_ids)"

text \<open>\<open>get_messages_from_redis\<close>\<close>

definition get_messages_from_redis ::
  "lib \<Rightarrow> state \<Rightarrow> string \<Rightarrow> int \<Rightarrow> int \<Rightarrow> exn + (ChatMessage list \<times> state)" where
  "get_messages_from_redis L s dashboard limit skip =
     bind (lrange s (messages_key dashboard) skip (skip + limit - 1)) (\<lambda>message_ids.
       messages_loop L dashboard s [] message_ids)"

text \<open>\<open>save_connected_user_to_redis\<close>\<close>

definition save_connected_user_to_redis :: "lib \<Rightarrow> state \<Rightarrow> ConnectedUser \<Rightarrow> exn + state" where
  "save_connected_user_to_redis L s user =
     (let key = ConnectedUser_get_redis_key user
      in bind (hset L s key (ConnectedUser_to_dict L user)) (\<lambda>s1.
         bind (sadd s1 (connected_users_key (cu_dashboard_id user)) (cu_user_id user)) (\<lambda>s2.
           expire s2 key (60 * 60))))"

text \<open>The loop of \<open>get_connected_users_from_redis\<close>.\<close>

fun users_loop ::
  "lib \<Rightarrow> string \<Rightarrow> state \<Rightarrow> ConnectedUser list \<Rightarrow> string list
     \<Rightarrow> exn + (ConnectedUser list \<times> state)" where
  "users_loop L dashboard s users [] = Inr (users, s)"
| "users_loop L dashboard s users (u # user_ids) =
     bind (hgetall s (user_key dashboard u)) (\<lambda>user_data.
       if user_data \<noteq> [] then
         (case ConnectedUser_from_dict L (clock s) user_data of
            Inr x \<Rightarrow> users_loop L dashboard s (users @ [x]) user_ids
          | Inl e \<Rightarrow>
              users_loop L dashboard (logger_error ''Error parsing user'' s) users user_ids)
       else users_loop L dashboard s users user_ids)"

text \<open>\<open>get_connected_users_from_redis\<close>\<close>

definition get_connected_users_from_redis ::
  "lib \<Rightarrow> state \<Rightarrow> string \<Rightarrow> exn + (ConnectedUser list \<times> state)" where
  "get_connected_users_from_redis L s dashboard =
     bind (smembers s (connected_users_key dashboard)) (\<lambda>user_ids.
       users_loop L dashboard s [] user_ids)"

text \<open>\<open>remove_user_from_redis\<close>\<close>

definition remove_user_from_redis :: "state \<Rightarrow> string \<Rightarrow> string \<Rightarrow> exn + state" where
  "remove_user_from_redis s dashboard user =
     bind (redis_delete s (user_key dashboard user)) (\<lambda>(n, s1).
       srem s1 (connected_users_key dashboard) user)"

subsection \<open>The WebSocket endpoint\<close>

text \<open>
  \<open>v.get(k, default)\<close> on a value that came out of \<open>json.loads\<close>: only a dictionary
  has \<open>get\<close>. \<open>v.strip()\<close>: only a string has \<open>strip\<close>; it removes the leading and
  trailing whitespace (the code points below 256 for which \<open>str.isspace\<close> holds).
\<close>

definition py_get :: "pyval \<Rightarrow> string \<Rightarrow> pyval \<Rightarrow> exn + pyval" where
  "py_get v k dflt = (case v of PDict d \<Rightarrow> Inr (dict_get d k dflt) | _ \<Rightarrow> Inl AttributeError)"

definition py_isspace :: "char \<Rightarrow> bool" where
  "py_isspace c =
     (of_char c \<in> {9, 10, 11, 12, 13, 28, 29, 30, 31, 32, 133, 160 :: nat})"

definition strip :: "string \<Rightarrow> string" where
  "strip s = rev (dropWhile py_isspace (rev (dropWhile py_isspace s)))"

definition py_strip :: "pyval \<Rightarrow> exn + string" where
  "py_strip v = (case v of PStr s \<Rightarrow> Inr (strip s) | _ \<Rightarrow> Inl AttributeError)"

text \<open>
  The \<open>try\<close> block of \<open>handle_websocket_message\<close>. The keyword arguments of
  \<open>ChatMessage(...)\<close> are the dictionary it validates.
\<close>

definition handle_websocket_message_try ::
  "lib \<Rightarrow> settings \<Rightarrow> state \<Rightarrow> string \<Rightarrow> string \<Rightarrow> string \<Rightarrow> pyval \<Rightarrow> exn + state" where
  "handle_websocket_message_try L cfg s dashboard user name message_data =
     bind (py_get message_data ''content'' PNone) (\<lambda>c.
     bind (if truthy c then Inr c else py_get message_data ''message'' (PStr [])) (\<lambda>c.
     bind (py_strip c) (\<lambda>content.
       if content = [] \<or> int (length content) > max_message_length cfg
       then Inr (logger_warning ''Invalid message: empty or too long'' s)
       else
         bind (py_get message_data ''message_type'' (PStr ''text'')) (\<lambda>t.
         bind (MessageType_of t) (\<lambda>message_type.
         bind (py_get message_data ''reply_to'' PNone) (\<lambda>reply_to.
         bind (ChatMessage_init L (uuid4 L (uuid_count s)) (clock s)
                 [(''dashboard_id'', PStr dashboard),
                  (''user_id'', PStr user),
                  (''username'', PStr name),
                  (''content'', PStr content),
                  (''message_type'', PStr (MessageType_value message_type)),
                  (''reply_to'', reply_to)]) (\<lambda>chat_message.
         bind (save_message_to_redis L cfg (next_uuid s) chat_message) (\<lambda>s1.
           Inr (broadcast_message L s1 chat_message)))))))))"

text \<open>\<open>handle_websocket_message\<close>: whatever its \<open>try\<close> block raises is logged.\<close>

definition handle_websocket_message ::
  "lib \<Rightarrow> settings \<Rightarrow> state \<Rightarrow> string \<Rightarrow> string \<Rightarrow> string \<Rightarrow> pyval \<Rightarrow> state" where
  "handle_websocket_message L cfg s dashboard user name message_data =
     (case handle_websocket_message_try L cfg s dashboard user name message_data of
        Inl e \<Rightarrow> logger_error ''Error handling WebSocket message'' s
      | Inr s' \<Rightarrow> s')"

text \<open>
  What one turn of the receive loop gets: \<open>receive_text\<close> raises
  \<open>WebSocketDisconnect\<close>, or returns a text that \<open>json.loads\<close> rejects, or a text it
  parses to a value.
\<close>

datatype received = Disconnected | Malformed | Parsed pyval

text \<open>
  The body of \<open>while True\<close> in \<open>websocket_endpoint\<close>. Only the call of
  \<open>handle_websocket_message\<close> and the check behind it (is the room still in
  \<open>active_connections\<close>: a warning when it is not) stand inside the inner \<open>try\<close>;
  \<open>receive_text\<close>, \<open>json.loads\<close>, the reads of \<open>type\<close> and the \<open>typing\<close> branch
  stand outside it.
\<close>

definition loop_body ::
  "lib \<Rightarrow> settings \<Rightarrow> state \<Rightarrow> string \<Rightarrow> string \<Rightarrow> string \<Rightarrow> received \<Rightarrow> exn + state" where
  "loop_body L cfg s dashboard user name r =
     (case r of
        Disconnected \<Rightarrow> Inl WebSocketDisconnect
      | Malformed \<Rightarrow> Inl JSONDecodeError
      | Parsed message_data \<Rightarrow>
          bind (py_get message_data ''type'' PNone) (\<lambda>t.
            if t = PStr ''chat_message'' then
              (case bind (py_get message_data ''data'' (PDict [])) (\<lambda>d.
                      Inr (handle_websocket_message L cfg s dashboard user name d)) of
                 Inr s' \<Rightarrow>
                   Inr (if active_connections s' dashboard \<noteq> None then s'
                        else logger_warning ''Connection lost after message processing'' s')
               | Inl msg_error \<Rightarrow>
                   Inr (logger_error ''Traceback''
                         (logger_error ''Error in handle_websocket_message'' s)))
            else if t = PStr ''typing'' then
              bind (py_get message_data ''data'' (PDict [])) (\<lambda>d.
              bind (py_get d ''is_typing'' (PBool False)) (\<lambda>is_typing.
                Inr (broadcast_typing L s dashboard user name is_typing)))
            else Inr (logger_warning ''Unknown message type'' s)))"

text \<open>The two states of an accepted connection (section 4.3 of the specification).\<close>

datatype protocol_state = Active | Terminated

text \<open>
  One turn of the loop with the handlers around it: \<open>except WebSocketDisconnect\<close> and
  \<open>except Exception\<close> both disconnect and remove the presence record (the second logs
  first), and the loop is over; an exception inside a handler reaches the outermost
  \<open>except\<close>, which logs and closes the websocket.
\<close>

definition receive_one ::
  "lib \<Rightarrow> settings \<Rightarrow> state \<Rightarrow> websocket \<Rightarrow> string \<Rightarrow> string \<Rightarrow> string \<Rightarrow> received
     \<Rightarrow> state \<times> protocol_state" where
  "receive_one L cfg s ws dashboard user name r =
     (case loop_body L cfg s dashboard user name r of
        Inr s' \<Rightarrow> (s', Active)
      | Inl e \<Rightarrow>
          (let s1 = (if e = WebSocketDisconnect then s else logger_error ''WebSocket error'' s);
               s2 = disconnect L s1 ws
           in case remove_user_from_redis s2 dashboard user of
                Inr s3 \<Rightarrow> (s3, Terminated)
              | Inl e' \<Rightarrow> (close (logger_error ''WebSocket connection error'' s2) ws, Terminated)))"

text \<open>The receive loop over the frames that arrive, in order.\<close>

fun receive_loop ::
  "lib \<Rightarrow> settings \<Rightarrow> state \<Rightarrow> websocket \<Rightarrow> string \<Rightarrow> string \<Rightarrow> string \<Rightarrow> received list
     \<Rightarrow> state \<times> protocol_state" where
  "receive_loop L cfg s ws dashboard user name [] = (s, Active)"
| "receive_loop L cfg s ws dashboard user name (r # rs) =
     (case receive_one L cfg s ws dashboard user name r of
        (s', Active) \<Rightarrow> receive_loop L cfg s' ws dashboard user name rs
      | (s', Terminated) \<Rightarrow> (s', Terminated))"

text \<open>
  The part of \<open>websocket_endpoint\<close> before the loop. An exception of \<open>connect\<close>
  (its \<open>accept\<close>) or of \<open>save_connected_user_to_redis\<close> reaches the outermost
  \<open>except\<close>; in the second case the registration \<open>connect\<close> made stays.
\<close>

definition websocket_open ::
  "lib \<Rightarrow> state \<Rightarrow> websocket \<Rightarrow> string \<Rightarrow> string \<Rightarrow> string \<Rightarrow> state \<times> protocol_state" where
  "websocket_open L s ws dashboard user name =
     (if dashboard = [] \<or> user = [] then (close s ws, Terminated)
      else case connect L s ws dashboard user name of
             Inl e \<Rightarrow> (close (logger_error ''WebSocket connection error'' s) ws, Terminated)
           | Inr s1 \<Rightarrow>
               (case save_connected_user_to_redis L s1
                       \<lparr> cu_user_id = user, cu_dashboard_id = dashboard, cu_username = name,
                         status = ONLINE, connected_at = clock s1, last_seen = clock s1,
                         socket_id = None \<rparr> of
                  Inr s2 \<Rightarrow> (s2, Active)
                | Inl e \<Rightarrow>
                    (close (logger_error ''WebSocket connection error'' s1) ws, Terminated)))"

text \<open>\<open>websocket_endpoint\<close>\<close>

definition websocket_endpoint ::
  "lib \<Rightarrow> settings \<Rightarrow> state \<Rightarrow> websocket \<Rightarrow> string \<Rightarrow> string \<Rightarrow> string \<Rightarrow> received list
     \<Rightarrow> state \<times> protocol_state" where
  "websocket_endpoint L cfg s ws dashboard user name frames =
     (case websocket_open L s ws dashboard user name of
        (s1, Active) \<Rightarrow> receive_loop L cfg s1 ws dashboard user name frames
      | (s1, Terminated) \<Rightarrow> (s1, Terminated))"

subsection \<open>REST endpoints\<close>

text \<open>The loop of \<open>clear_all_messages\<close>: one \<open>DEL\<close> per listed id, counting the hits.\<close>

fun delete_loop :: "state \<Rightarrow> string \<Rightarrow> int \<Rightarrow> string list \<Rightarrow> exn + (int \<times> state)" where
  "delete_loop s dashboard deleted_count [] = Inr (deleted_count, s)"
| "delete_loop s dashboard deleted_count (i # message_ids) =
     bind (redis_delete s (message_key dashboard i)) (\<lambda>(result, s1).
       delete_loop s1 dashboard (if result \<noteq> 0 then deleted_count + 1 else deleted_count)
         message_ids)"

definition messages_cleared_message :: "lib \<Rightarrow> state \<Rightarrow> string \<Rightarrow> int \<Rightarrow> pyval" where
  "messages_cleared_message L s dashboard n =
     PDict [(''type'', PStr ''messages_cleared''),
            (''data'', PDict [(''dashboard_id'', PStr dashboard),
                              (''cleared_count'', PInt n),
                              (''timestamp'', PStr (dt_isoformat L (clock s)))])]"

text \<open>
  \<open>clear_all_messages\<close>: the \<open>cleared_count\<close> of the response and the new state, or
  the \<open>HTTPException(500)\<close> its \<open>except\<close> raises.
\<close>

definition clear_all_messages :: "lib \<Rightarrow> state \<Rightarrow> string \<Rightarrow> exn + (int \<times> state)" where
  "clear_all_messages L s dashboard =
     (let list_key = messages_key dashboard
      in case bind (lrange s list_key 0 (- 1)) (\<lambda>message_ids.
              bind (delete_loop s dashboard 0 message_ids) (\<lambda>(deleted_count, s1).
              bind (redis_delete s1 list_key) (\<lambda>(n, s2).
                Inr (deleted_count,
                     broadcast_to_dashboard L s2 dashboard
                       (messages_cleared_message L s2 dashboard deleted_count) None)))) of
           Inl e \<Rightarrow> Inl (HTTPException 500)
         | Inr r \<Rightarrow> Inr r)"


section \<open>Concrete values\<close>

text \<open>
  A library in which a timestamp is the whole number of the instant, Redis stores a
  float as that many strokes and pydantic reads the strokes back, and a small state: an
  empty Redis that answers, no connection, the clock at 7.
\<close>

definition example_lib :: lib where
  "example_lib =
     \<lparr> dt_timestamp = (\<lambda>d. of_int d),
       dt_fromtimestamp = (\<lambda>x. Some \<lfloor>x\<rfloor>),
       dt_isoformat = (\<lambda>d. replicate (nat d) (CHR ''t'')),
       parse_datetime = (\<lambda>s. Some (int (length s))),
       repr_float = (\<lambda>x. replicate (nat \<lfloor>x\<rfloor>) (CHR ''1'')),
       str_int = (\<lambda>n. replicate (nat n) (CHR ''1'')),
       uuid4 = (\<lambda>n. replicate (Suc n) (CHR ''u'')) \<rparr>"

definition example_message :: ChatMessage where
  "example_message =
     \<lparr> msg_id = ''m1'', dashboard_id = ''d1'', user_id = ''u1'', username = ''A'',
       content = ''hi'', message_type = TEXT, timestamp = 5, edited_at = Some 0,
       is_deleted = True, reply_to = None \<rparr>"

definition empty_state :: state where
  "empty_state =
     \<lparr> redis_up = True, redis_hashes = (\<lambda>k. []), redis_lists = (\<lambda>k. []), redis_sets = (\<lambda>k. []),
       redis_ttl = (\<lambda>k. None), active_connections = (\<lambda>d. None), connection_info = [],
       closed_sockets = {}, sent = [], log_records = [], clock = 7, uuid_count = 0 \<rparr>"

text \<open>
  What a call may do to the state at most: the Redis switch, the transports, the clock
  and the uuid position stay; a list or a hash stays or is deleted; a set, the registry
  and the reverse dictionary lose entries; frames and log records are appended.
\<close>

definition frame_rel :: "state \<Rightarrow> state \<Rightarrow> bool" where
  "frame_rel a b \<longleftrightarrow>
   redis_up b = redis_up a \<and> closed_sockets b = closed_sockets a \<and> clock b = clock a
   \<and> uuid_count b = uuid_count a
   \<and> (\<forall>k. redis_lists b k = redis_lists a k \<or> redis_lists b k = [])
   \<and> (\<forall>k. redis_hashes b k = redis_hashes a k \<or> redis_hashes b k = [])
   \<and> (\<forall>k. set (redis_sets b k) \<subseteq> set (redis_sets a k))
   \<and> (\<exists>xs. sent b = sent a @ xs)
   \<and> (\<exists>xs. log_records b = log_records a @ xs)
   \<and> (\<forall>w x. map_of (connection_info b) w = Some x \<longrightarrow> map_of (connection_info a) w = Some x)
   \<and> (\<forall>d c'. active_connections b d = Some c' \<longrightarrow>
          (\<exists>c. active_connections a d = Some c \<and> set c' \<subseteq> set c))"

text \<open>Appending a sequence of messages: one \<open>save_message_to_redis\<close> each, in order.\<close>

fun save_messages :: "lib \<Rightarrow> settings \<Rightarrow> state \<Rightarrow> ChatMessage list \<Rightarrow> exn + state" where
  "save_messages L cfg s [] = Inr s"
| "save_messages L cfg s (m # ms) =
     bind (save_message_to_redis L cfg s m) (\<lambda>s'. save_messages L cfg s' ms)"

text \<open>
  What one turn of the loop of \<open>get_messages_from_redis\<close> makes of a listed id: the
  message its hash parses to, with \<open>fresh\<close> for a missing id field, or nothing when
  the hash is missing or \<open>from_dict\<close> raises. \<open>resolve_user\<close> is the same for the
  loop of \<open>get_connected_users_from_redis\<close>.
\<close>

definition resolve_message :: "lib \<Rightarrow> state \<Rightarrow> string \<Rightarrow> string \<Rightarrow> string \<Rightarrow> ChatMessage option" where
  "resolve_message L s dashboard fresh i =
     (let message_data = map (\<lambda>(f, v). (f, PStr v)) (redis_hashes s (message_key dashboard i))
      in if message_data = [] then None
         else case ChatMessage_from_dict L fresh (clock s) message_data of
                Inr m \<Rightarrow> Some m
              | Inl e \<Rightarrow> None)"

definition resolve_user :: "lib \<Rightarrow> state \<Rightarrow> string \<Rightarrow> string \<Rightarrow> ConnectedUser option" where
  "resolve_user L s dashboard u =
     (let user_data = map (\<lambda>(f, v). (f, PStr v)) (redis_hashes s (user_key dashboard u))
      in if user_data = [] then None
         else case ConnectedUser_from_dict L (clock s) user_data of
                Inr x \<Rightarrow> Some x
              | Inl e \<Rightarrow> None)"

text \<open>
  A room \<open>d1\<close> that lists three ids: the hash of \<open>m0\<close> has expired, the hash of
  \<open>m1\<close> is what \<open>example_message\<close> is stored as, the hash of \<open>m2\<close> lacks the
  required fields.
\<close>

definition example_history :: state where
  "example_history =
     empty_state
       \<lparr> redis_lists := (\<lambda>k. if k = messages_key ''d1'' then [''m0'', ''m1'', ''m2''] else []),
         redis_hashes :=
           (\<lambda>k. if k = message_key ''d1'' ''m1''
                then [(''id'', ''m1''), (''dashboard_id'', ''d1''), (''user_id'', ''u1''),
                      (''username'', ''A''), (''content'', ''hi''), (''message_type'', ''text''),
                      (''timestamp'', ''11111''), (''is_deleted'', ''1''), (''edited_at'', '''')]
                else if k = message_key ''d1'' ''m2'' then [(''id'', ''m2'')]
                else []) \<rparr>"

text \<open>
  A room \<open>d1\<close> with ten listed messages of which the hashes of two (\<open>c\<close> and \<open>h\<close>)
  have expired.
\<close>

definition example_ten :: state where
  "example_ten =
     empty_state
       \<lparr> redis_lists :=
           (\<lambda>k. if k = messages_key ''d1''
                then [''a'', ''b'', ''c'', ''d'', ''e'', ''f'', ''g'', ''h'', ''i'', ''j''] else []),
         redis_hashes :=
           (\<lambda>k. if k \<in> set (map (message_key ''d1'')
                              [''a'', ''b'', ''d'', ''e'', ''f'', ''g'', ''i'', ''j''])
                then [(''content'', ''hi'')] else []) \<rparr>"

text \<open>
  A user record, and a room \<open>d1\<close> whose set names two users: \<open>u1\<close> with the hash that
  record is stored as, \<open>u2\<close> with a hash that has expired.
\<close>

definition example_user :: ConnectedUser where
  "example_user =
     \<lparr> cu_user_id = ''u1'', cu_dashboard_id = ''d1'', cu_username = ''A'', status = ONLINE,
       connected_at = 3, last_seen = 4, socket_id = None \<rparr>"

definition example_presence :: state where
  "example_presence =
     empty_state
       \<lparr> redis_sets := (\<lambda>k. if k = connected_users_key ''d1'' then [''u1'', ''u2''] else []),
         redis_hashes :=
           (\<lambda>k. if k = user_key ''d1'' ''u1''
                then [(''user_id'', ''u1''), (''dashboard_id'', ''d1''), (''username'', ''A''),
                      (''status'', ''online''), (''connected_at'', ''111''),
                      (''last_seen'', ''1111'')]
                else []) \<rparr>"

text \<open>
  Two connects for the same (room, user): websocket \<open>ws1\<close>, then \<open>ws2\<close>, which
  replaces it in the registry.
\<close>

definition example_replaced :: state where
  "example_replaced =
     projr (connect example_lib
              (projr (connect example_lib empty_state ''ws1'' ''d1'' ''u1'' ''A''))
              ''ws2'' ''d1'' ''u1'' ''A'')"

text \<open>Room \<open>d1\<close> with two connections: \<open>ws1\<close> of user \<open>u1\<close> and \<open>ws2\<close> of \<open>u2\<close>.\<close>

definition example_room :: state where
  "example_room =
     projr (connect example_lib
              (projr (connect example_lib empty_state ''ws1'' ''d1'' ''u1'' ''A''))
              ''ws2'' ''d1'' ''u2'' ''B'')"

text \<open>
  The conversions of CPython, for instants from 1970 on. \<open>datetime.timestamp()\<close> of an
  aware datetime is the true division of its microseconds since the epoch by \<open>10**6\<close>,
  rounded to the nearest double (53 bits, ties to even); \<open>fromtimestamp(x, tz=utc)\<close>
  splits \<open>x\<close> into its whole seconds and its fraction, rounds the fraction times
  \<open>1e6\<close> (a double product) half to even, and raises when the instant lies outside
  the years 1 to 9999. \<open>python_lib\<close> is \<open>example_lib\<close> with these two conversions.
\<close>

definition round_half_even :: "real \<Rightarrow> int" where
  "round_half_even y =
     (let f = \<lfloor>y\<rfloor>; r = y - of_int f
      in if r < 1 / 2 then f else if r > 1 / 2 then f + 1 else if even f then f else f + 1)"

definition round_to_double :: "real \<Rightarrow> real" where
  "round_to_double x =
     (if x = 0 then 0
      else let q = 2 powr (of_int \<lfloor>log 2 \<bar>x\<bar>\<rfloor> - 52)
           in sgn x * of_int (round_half_even (\<bar>x\<bar> / q)) * q)"

definition python_lib :: lib where
  "python_lib =
     example_lib
       \<lparr> dt_timestamp := (\<lambda>d. round_to_double (of_int d / 1000000)),
         dt_fromtimestamp :=
           (\<lambda>x. let us = \<lfloor>x\<rfloor> * 1000000 + round_half_even (round_to_double (frac x * 1000000))
                in if us < - 62135596800000000 \<or> 253402300799999999 < us then None
                   else Some us) \<rparr>"

text \<open>A message sent at the last instant a datetime can hold, 9999-12-31T23:59:59.999999Z.\<close>

definition example_last_instant :: ChatMessage where
  "example_last_instant = example_message\<lparr>timestamp := 253402300799999999, edited_at := None\<rparr>"

text \<open>
  An id without the separator of the keys, and the stores in which every presence hash
  of a room with such an id carries the user id of its key.
\<close>

definition colon_free :: "string \<Rightarrow> bool" where
  "colon_free x \<longleftrightarrow> CHR '':'' \<notin> set x"

definition presence_inv :: "state \<Rightarrow> bool" where
  "presence_inv s \<longleftrightarrow>
     (\<forall>d u. colon_free d \<longrightarrow>
        redis_hashes s (user_key d u) = []
        \<or> map_of (redis_hashes s (user_key d u)) ''user_id'' = Some u)"

text \<open>
  Two puts whose keys collide, then a remove: user \<open>b:c\<close> enters room \<open>a\<close>, user \<open>c\<close>
  enters room \<open>a:b\<close> (both records live under \<open>user:a:b:c\<close>), and \<open>c\<close> is removed
  from room \<open>a\<close>.
\<close>

definition example_collision :: state where
  "example_collision =
     projr (remove_user_from_redis
       (projr (save_connected_user_to_redis example_lib
         (projr (save_connected_user_to_redis example_lib empty_state
            (example_user\<lparr>cu_user_id := ''b:c'', cu_dashboard_id := ''a''\<rparr>)))
         (example_user\<lparr>cu_user_id := ''c'', cu_dashboard_id := ''a:b''\<rparr>)))
       ''a'' ''c'')"

section \<open>What a broadcast can change\<close>

text \<open>
  A relation between states that is reflexive and transitive and holds across a frame
  sent, a log record written, an unregistration and a presence removal holds across
  \<open>disconnect\<close>, \<open>broadcast_to_dashboard\<close> and \<open>disconnect_each\<close>.
\<close>

lemma send_loop_rel:
  assumes rf: "\<And>s. R s s" and tr: "\<And>a b c. R a b \<Longrightarrow> R b c \<Longrightarrow> R a c"
    and snd: "\<And>s ws m. R s (s\<lparr>sent := sent s @ [(ws, m)]\<rparr>)"
    and lg: "\<And>s t. R s (logger_error t s)"
  shows "R s (fst (send_loop s conns m ex acc))"
proof (induction s conns m ex acc rule: send_loop.induct)
  case (1 s message ex disconnected_users)
  then show ?case by (simp add: rf)
next
  case (2 s user ws rest message ex disconnected_users)
  show ?case
  proof (cases "excluded ex user")
    case True
    then show ?thesis using 2(1) by simp
  next
    case False
    show ?thesis
    proof (cases "ws \<in> closed_sockets s")
      case True
      have "R s (logger_error ''Error sending message to user'' s)" by (rule lg)
      moreover have "R (logger_error ''Error sending message to user'' s)
          (fst (send_loop (logger_error ''Error sending message to user'' s) rest message ex
             (disconnected_users @ [ws])))"
      proof -
        have "send_text s ws message = Inl TransportError" using True by (simp add: send_text_def)
        from 2(2)[OF False this] show ?thesis .
      qed
      ultimately show ?thesis using False True
        by (auto simp: send_text_def intro: tr)
    next
      case c: False
      have "R s (s\<lparr>sent := sent s @ [(ws, message)]\<rparr>)" by (rule snd)
      moreover have "R (s\<lparr>sent := sent s @ [(ws, message)]\<rparr>)
          (fst (send_loop (s\<lparr>sent := sent s @ [(ws, message)]\<rparr>) rest message ex disconnected_users))"
      proof -
        have "send_text s ws message = Inr (s\<lparr>sent := sent s @ [(ws, message)]\<rparr>)"
          using c by (simp add: send_text_def)
        from 2(3)[OF False this] show ?thesis .
      qed
      ultimately show ?thesis using False c
        by (auto simp: send_text_def intro: tr)
    qed
  qed
qed

lemma disconnect_broadcast_rel:
  assumes rf: "\<And>s. R s s" and tr: "\<And>a b c. R a b \<Longrightarrow> R b c \<Longrightarrow> R a c"
    and snd: "\<And>s ws m. R s (s\<lparr>sent := sent s @ [(ws, m)]\<rparr>)"
    and lg: "\<And>s t. R s (logger_error t s)"
    and unreg: "\<And>s ws d u n. map_of (connection_info s) ws = Some (d, u, n)
                  \<Longrightarrow> R s (unregister s ws d u)"
    and forget: "\<And>s d u s'. forget_presence s d u = Inr s' \<Longrightarrow> R s s'"
  shows "R s (disconnect L s ws)"
    and "R s (broadcast_to_dashboard L s d m ex)"
    and "R s (disconnect_each L s wss)"
proof (induction L s ws and L s d m ex and L s wss
    rule: disconnect_broadcast_to_dashboard_disconnect_each.induct)
  case (1 L s ws)
  show ?case
  proof (cases "map_of (connection_info s) ws")
    case None
    then show ?thesis by (simp add: rf)
  next
    case (Some t)
    obtain d u n where t: "t = (d, u, n)" by (cases t) auto
    have m: "map_of (connection_info s) ws = Some (d, u, n)" using Some t by simp
    have r1: "R s (unregister s ws d u)" by (rule unreg[OF m])
    show ?thesis
    proof (cases "forget_presence (unregister s ws d u) d u")
      case (Inl e)
      have "R (unregister s ws d u)
              (logger_error ''Error updating disconnected user'' (unregister s ws d u))"
        by (rule lg)
      then show ?thesis using m Inl r1 by (auto intro: tr)
    next
      case (Inr s')
      have "R (unregister s ws d u) s'" by (rule forget[OF Inr])
      moreover have "R s' (broadcast_to_dashboard L s' d (user_left_message L s' n) None)"
        by (rule 1[OF m refl refl Inr])
      ultimately show ?thesis using m Inr r1 by (auto intro: tr)
    qed
  qed
next
  case (2 L s dashboard message ex)
  show ?case
  proof (cases "active_connections s dashboard")
    case None
    then show ?thesis by (simp add: rf)
  next
    case (Some conns)
    have "R s (fst (send_loop s conns message ex []))"
      by (rule send_loop_rel[OF rf tr snd lg])
    then show ?thesis using 2[OF Some] Some by (auto intro: tr)
  qed
next
  case (3 L s)
  then show ?case by (simp add: rf)
next
  case (4 L s ws rest)
  then show ?case by (auto intro: tr)
qed


lemma frame_rel_refl: "frame_rel s s"
  by (simp add: frame_rel_def)

lemma frame_rel_trans: "frame_rel a b \<Longrightarrow> frame_rel b c \<Longrightarrow> frame_rel a c"
  unfolding frame_rel_def
  apply (intro conjI)
            apply simp
           apply simp
          apply simp
         apply simp
        apply metis
       apply metis
      apply blast
     apply (metis append.assoc)
    apply (metis append.assoc)
   apply blast
  apply (meson subset_trans)
  done


lemma frame_rel_sent: "frame_rel s (s\<lparr>sent := sent s @ [(ws, m)]\<rparr>)"
  by (simp add: frame_rel_def)

lemma frame_rel_logger_error: "frame_rel s (logger_error t s)"
  by (simp add: frame_rel_def logger_error_def)

lemma set_delete_subset: "set (AList.delete k xs) \<subseteq> set xs"
  by (induction xs) auto

lemma map_of_delete_Some:
  "map_of (AList.delete k xs) w = Some x \<Longrightarrow> map_of xs w = Some x"
  by (simp add: AList.delete_conv' split: if_splits)

lemma frame_relI:
  assumes "redis_up b = redis_up a" "closed_sockets b = closed_sockets a" "clock b = clock a"
    "uuid_count b = uuid_count a"
    "\<And>k. redis_lists b k = redis_lists a k \<or> redis_lists b k = []"
    "\<And>k. redis_hashes b k = redis_hashes a k \<or> redis_hashes b k = []"
    "\<And>k. set (redis_sets b k) \<subseteq> set (redis_sets a k)"
    "\<exists>xs. sent b = sent a @ xs"
    "\<exists>xs. log_records b = log_records a @ xs"
    "\<And>w x. map_of (connection_info b) w = Some x \<Longrightarrow> map_of (connection_info a) w = Some x"
    "\<And>d c'. active_connections b d = Some c' \<Longrightarrow>
          \<exists>c. active_connections a d = Some c \<and> set c' \<subseteq> set c"
  shows "frame_rel a b"
  using assms unfolding frame_rel_def by blast

lemma active_connections_unregister:
  assumes "active_connections (unregister s ws d u) d' = Some c'"
  shows "\<exists>c. active_connections s d' = Some c \<and> set c' \<subseteq> set c"
proof (cases "active_connections s d")
  case None
  then show ?thesis using assms by (simp add: unregister_def)
next
  case (Some conns)
  show ?thesis
  proof (cases "d' = d")
    case True
    then have "c' = AList.delete u conns" using assms Some
      by (simp add: unregister_def Let_def split: if_splits)
    then show ?thesis using True Some set_delete_subset[of u conns] by simp
  next
    case False
    then show ?thesis using assms Some
      by (simp add: unregister_def Let_def split: if_splits)
  qed
qed

lemma frame_rel_unregister: "frame_rel s (unregister s ws d u)"
proof (rule frame_relI, goal_cases)
  case (10 w x)
  then have "map_of (AList.delete ws (connection_info s)) w = Some x"
    by (simp add: unregister_def)
  then show ?case by (rule map_of_delete_Some)
next
  case (11 d' c')
  then show ?case by (rule active_connections_unregister)
qed (simp_all add: unregister_def)


lemma forget_presence_Inr:
  "forget_presence s d u = Inr s' \<longleftrightarrow>
     redis_up s \<and> srem (snd (projr (redis_delete s (user_key d u)))) (connected_users_key d) u = Inr s'"
  by (auto simp: forget_presence_def bind_def redis_delete_def srem_def Let_def)

lemma frame_rel_redis_delete:
  "redis_up s \<Longrightarrow> frame_rel s (snd (projr (redis_delete s k)))"
  by (rule frame_relI) (simp_all add: redis_delete_def)

lemma frame_rel_srem: "srem s k v = Inr s' \<Longrightarrow> frame_rel s s'"
  by (rule frame_relI) (auto simp: srem_def Let_def split: if_splits)

lemma frame_rel_forget_presence:
  assumes "forget_presence s d u = Inr s'"
  shows "frame_rel s s'"
  using assms frame_rel_redis_delete frame_rel_srem frame_rel_trans
  unfolding forget_presence_Inr by blast

lemma frame_rel_broadcast:
  "frame_rel s (disconnect L s ws)"
  "frame_rel s (broadcast_to_dashboard L s d m ex)"
  "frame_rel s (disconnect_each L s wss)"
    apply (rule disconnect_broadcast_rel(1)[where R = frame_rel];
           (rule frame_rel_refl frame_rel_sent frame_rel_logger_error frame_rel_unregister
              | erule frame_rel_forget_presence | erule (1) frame_rel_trans))
   apply (rule disconnect_broadcast_rel(2)[where R = frame_rel];
          (rule frame_rel_refl frame_rel_sent frame_rel_logger_error frame_rel_unregister
             | erule frame_rel_forget_presence | erule (1) frame_rel_trans))
  apply (rule disconnect_broadcast_rel(3)[where R = frame_rel];
         (rule frame_rel_refl frame_rel_sent frame_rel_logger_error frame_rel_unregister
            | erule frame_rel_forget_presence | erule (1) frame_rel_trans))
  done

subsection \<open>The example registries\<close>

lemmas registry_evals =
  connect_def accept_def register_def bind_def hset_def sadd_def expire_def key_exists_def
  broadcast_user_joined_def user_joined_message_def ConnectedUser_to_dict_def
  ConnectedUser_get_redis_key_def empty_state_def send_text_def excluded_def unregister_def
  forget_presence_def redis_delete_def srem_def user_left_message_def logger_error_def Let_def

lemma example_replaced_registry:
  "active_connections example_replaced ''d1'' = Some [(''u1'', ''ws2'')]"
  "map_of (connection_info example_replaced) ''ws1'' = Some (''d1'', ''u1'', ''A'')"
  "map_of (connection_info example_replaced) ''ws2'' = Some (''d1'', ''u1'', ''A'')"
  "redis_hashes example_replaced (user_key ''d1'' ''u1'') \<noteq> []"
  by (simp_all add: example_replaced_def registry_evals)

lemma example_room_registry:
  "active_connections example_room ''d1'' = Some [(''u1'', ''ws1''), (''u2'', ''ws2'')]"
  "map_of (connection_info example_room) ''ws1'' = Some (''d1'', ''u1'', ''A'')"
  "map_of (connection_info example_room) ''ws2'' = Some (''d1'', ''u2'', ''B'')"
  "redis_up example_room" "closed_sockets example_room = {}"
  by (simp_all add: example_room_def registry_evals)

section \<open>Serialisation of a message\<close>

lemma MessageType_of_value: "MessageType_of (PStr (MessageType_value t)) = Inr t"
  by (cases t) (simp_all add: MessageType_of_def)

lemma UserStatus_of_value: "UserStatus_of (PStr (UserStatus_value t)) = Inr t"
  by (cases t) (simp_all add: UserStatus_of_def)

lemma ChatMessage_to_dict_optional_keys:
  "map_of (ChatMessage_to_dict L m) ''is_deleted''
     = Some (PStr (if is_deleted m then ''1'' else ''0''))"
  "map_of (ChatMessage_to_dict L m) ''edited_at''
     = map_option (\<lambda>e. PFloat (dt_timestamp L e)) (edited_at m)"
  "map_of (ChatMessage_to_dict L m) ''reply_to'' = map_option PStr (reply_to m)"
  by (auto simp: ChatMessage_to_dict_def split: option.splits)

lemma ChatMessage_from_dict_to_dict:
  assumes len: "length (content m) \<le> 1000"
    and ts: "dt_fromtimestamp L (dt_timestamp L (timestamp m)) = Some (timestamp m)"
    and ed: "\<And>e. edited_at m = Some e \<Longrightarrow> dt_fromtimestamp L (dt_timestamp L e) = Some e"
  shows "ChatMessage_from_dict L fresh now (ChatMessage_to_dict L m) = Inr m"
proof (cases "edited_at m")
  case None
  then show ?thesis using len ts
    by (cases "reply_to m")
      (simp_all add: ChatMessage_from_dict_def ChatMessage_to_dict_def convert_timestamp_def
        convert_flag_def bind_def dict_set_def ChatMessage_init_def required_def
        defaulted_def optional_def MessageType_of_value)
next
  case (Some e)
  then show ?thesis using len ts ed[OF Some]
    by (cases "reply_to m"; cases "dt_timestamp L e = 0")
      (simp_all add: ChatMessage_from_dict_def ChatMessage_to_dict_def convert_timestamp_def
        convert_flag_def bind_def dict_set_def ChatMessage_init_def required_def
        defaulted_def optional_def MessageType_of_value)
qed

text \<open>
  C10, under the two conditions the round trip depends on. A message record whose content
  has at most 1000 characters (the \<open>max_length\<close> of the field, which \<open>from_dict\<close>
  validates) and whose timestamps survive \<open>timestamp()\<close> followed by
  \<open>fromtimestamp\<close> comes back from \<open>from_dict (to_dict m)\<close> unchanged. The deleted flag is written as the text \<open>1\<close> or
  \<open>0\<close>; \<open>edited_at\<close> and \<open>reply_to\<close> are keys of the dictionary exactly when the
  record has them, and an absent one comes back as None.
\<close>

theorem ChatMessage_roundtrip:
  assumes "length (content m) \<le> 1000"
    and "dt_fromtimestamp L (dt_timestamp L (timestamp m)) = Some (timestamp m)"
    and "\<forall>e. edited_at m = Some e \<longrightarrow> dt_fromtimestamp L (dt_timestamp L e) = Some e"
  shows "ChatMessage_from_dict L fresh now (ChatMessage_to_dict L m) = Inr m
       \<and> map_of (ChatMessage_to_dict L m) ''is_deleted''
           = Some (PStr (if is_deleted m then ''1'' else ''0''))
       \<and> (map_of (ChatMessage_to_dict L m) ''edited_at'' = None) = (edited_at m = None)
       \<and> (map_of (ChatMessage_to_dict L m) ''reply_to'' = None) = (reply_to m = None)"
  using ChatMessage_from_dict_to_dict[of m L fresh now] assms
  by (simp add: ChatMessage_to_dict_optional_keys)

theorem ChatMessage_roundtrip_witness:
  "ChatMessage_from_dict example_lib ''f'' 3 (ChatMessage_to_dict example_lib example_message)
     = Inr example_message
   \<and> map_of (ChatMessage_to_dict example_lib example_message) ''is_deleted'' = Some (PStr ''1'')
   \<and> map_of (ChatMessage_to_dict example_lib example_message) ''edited_at'' \<noteq> None
   \<and> map_of (ChatMessage_to_dict example_lib example_message) ''reply_to'' = None"
  using ChatMessage_roundtrip[of example_message example_lib "''f''" 3]
  by (simp add: example_message_def example_lib_def)


text \<open>
  The timestamp of \<open>example_last_instant\<close> is 253402300799.999999 seconds; the doubles
  around it lie \<open>2 ^ -15\<close> apart, and the nearest one is 253402300800, the first instant of
  the year 10000.
\<close>

lemma floor_log_last_instant: "\<lfloor>log 2 (253402300799999999 / 1000000 :: real)\<rfloor> = 37"
proof (rule floor_unique)
  show "of_int 37 \<le> log 2 (253402300799999999 / 1000000 :: real)"
    by (simp add: le_log_iff powr_numeral)
  show "log 2 (253402300799999999 / 1000000 :: real) < of_int 37 + 1"
    by (simp add: log_less_iff powr_numeral)
qed

lemma powr_last_instant: "(2::real) powr (of_int 37 - 52) = 1 / 32768"
proof -
  have "(2::real) powr (of_int 37 - 52) = 2 powr (- 15)" by simp
  also have "\<dots> = 1 / (2 powr 15)" by (simp add: powr_minus divide_simps)
  also have "\<dots> = 1 / 32768" by (simp add: powr_numeral)
  finally show ?thesis .
qed

lemma floor_last_instant: "\<lfloor>(129741978009599999488 / 15625 :: real)\<rfloor> = 8303486592614399"
  by (rule floor_unique) simp_all

lemma round_half_even_last_instant:
  "round_half_even (129741978009599999488 / 15625 :: real) = 8303486592614400"
  unfolding round_half_even_def Let_def floor_last_instant by simp

lemma round_to_double_last_instant:
  "round_to_double (253402300799999999 / 1000000) = 253402300800"
  unfolding round_to_double_def Let_def
  by (simp add: floor_log_last_instant powr_last_instant round_half_even_last_instant
      del: of_int_numeral)

lemma fromtimestamp_year_10000: "dt_fromtimestamp python_lib 253402300800 = None"
  by (simp add: python_lib_def example_lib_def round_to_double_def round_half_even_def)

text \<open>
  A record the claim C10 does not hold for: the message of the last instant is written
  with the timestamp 253402300800.0, which \<open>fromtimestamp\<close> refuses (year 10000), so
  \<open>from_dict (to_dict m)\<close> raises ValueError instead of returning the record.
\<close>

theorem roundtrip_last_instant_counterexample:
  "ChatMessage_from_dict python_lib ''f'' 3 (ChatMessage_to_dict python_lib example_last_instant)
     = Inl ValueError"
proof -
  have t: "dt_timestamp python_lib (timestamp example_last_instant) = 253402300800"
    using round_to_double_last_instant
    by (simp add: python_lib_def example_lib_def example_last_instant_def)
  have m: "map_of (ChatMessage_to_dict python_lib example_last_instant) ''timestamp''
             = Some (PFloat 253402300800)"
    unfolding ChatMessage_to_dict_def t by simp
  show ?thesis
    unfolding ChatMessage_from_dict_def convert_timestamp_def m
    by (simp add: fromtimestamp_year_10000 bind_def)
qed

section \<open>Validation of a chat frame\<close>

lemma handle_websocket_message_invalid:
  assumes "(if truthy (dict_get d ''content'' PNone) then dict_get d ''content'' PNone
            else dict_get d ''message'' (PStr [])) = PStr c"
    and "strip c = [] \<or> int (length (strip c)) > max_message_length cfg"
  shows "handle_websocket_message L cfg s dashboard user name (PDict d)
           = logger_warning ''Invalid message: empty or too long'' s"
  using assms
  by (auto simp: handle_websocket_message_def handle_websocket_message_try_def py_get_def
      bind_def py_strip_def split: if_splits)

text \<open>
  C3. A \<open>chat_message\<close> frame whose content (the \<open>content\<close> field or, when that is
  missing or falsy, the \<open>message\<close> field) is empty after \<open>strip\<close>, or longer than
  \<open>max_message_length\<close>, leaves Redis and the registry as they were, sends no frame to
  anyone and keeps the connection active. Its only trace is in the log: the warning
  \<open>Invalid message\<close> and, when the room is not in \<open>active_connections\<close>, the warning
  \<open>Connection lost\<close> of the check behind the handler.
\<close>

theorem invalid_chat_message_dropped:
  assumes "dict_get f ''type'' PNone = PStr ''chat_message''"
    and "dict_get f ''data'' (PDict []) = PDict d"
    and "(if truthy (dict_get d ''content'' PNone) then dict_get d ''content'' PNone
          else dict_get d ''message'' (PStr [])) = PStr c"
    and "strip c = [] \<or> int (length (strip c)) > max_message_length cfg"
  shows "\<exists>s'. receive_one L cfg s ws dashboard user name (Parsed (PDict f)) = (s', Active)
           \<and> redis_hashes s' = redis_hashes s \<and> redis_lists s' = redis_lists s
           \<and> redis_sets s' = redis_sets s \<and> redis_ttl s' = redis_ttl s
           \<and> sent s' = sent s
           \<and> active_connections s' = active_connections s
           \<and> connection_info s' = connection_info s
           \<and> log_records s'
               = log_records s @ [(WARNING, ''Invalid message: empty or too long'')]
                 @ (if active_connections s dashboard \<noteq> None then []
                    else [(WARNING, ''Connection lost after message processing'')])"
  using assms(1,2) handle_websocket_message_invalid[OF assms(3,4), of L s dashboard user name]
  by (simp add: receive_one_def loop_body_def py_get_def bind_def logger_warning_def)

theorem invalid_chat_message_dropped_witness:
  "(\<exists>s'. receive_one example_lib default_settings example_room ''ws1'' ''d1'' ''u1'' ''A''
           (Parsed (PDict [(''type'', PStr ''chat_message''),
                           (''data'', PDict [(''message'', PStr '' '')])])) = (s', Active)
      \<and> redis_hashes s' = redis_hashes example_room \<and> redis_lists s' = redis_lists example_room
      \<and> sent s' = sent example_room
      \<and> log_records s'
          = log_records example_room @ [(WARNING, ''Invalid message: empty or too long'')])"
  using invalid_chat_message_dropped[of
      "[(''type'', PStr ''chat_message''), (''data'', PDict [(''message'', PStr '' '')])]"
      "[(''message'', PStr '' '')]" "'' ''" default_settings example_lib example_room
      "''ws1''" "''d1''" "''u1''" "''A''"] example_room_registry(1)
  by (simp add: dict_get_def strip_def py_isspace_def) blast

section \<open>The bounded history\<close>

lemma key_distinct [simp]:
  "message_key d i \<noteq> messages_key d'" "messages_key d' \<noteq> message_key d i"
  "message_key d i \<noteq> user_key d' u" "user_key d' u \<noteq> message_key d i"
  "message_key d i \<noteq> connected_users_key d'" "connected_users_key d' \<noteq> message_key d i"
  "messages_key d \<noteq> user_key d' u" "user_key d' u \<noteq> messages_key d"
  "messages_key d \<noteq> connected_users_key d'" "connected_users_key d' \<noteq> messages_key d"
  "user_key d u \<noteq> connected_users_key d'" "connected_users_key d' \<noteq> user_key d u"
  by (simp_all add: message_key_def messages_key_def user_key_def connected_users_key_def)

lemma key_inject [simp]:
  "message_key d i = message_key d j \<longleftrightarrow> i = j"
  "user_key d u = user_key d v \<longleftrightarrow> u = v"
  "messages_key d = messages_key d' \<longleftrightarrow> d = d'"
  "connected_users_key d = connected_users_key d' \<longleftrightarrow> d = d'"
  by (simp_all add: message_key_def messages_key_def user_key_def connected_users_key_def)

lemma redis_range_last:
  assumes "0 < K"
  shows "redis_range xs (- int K) (- 1) = drop (length xs - K) xs"
proof (cases "xs = []")
  case True
  then show ?thesis by (simp add: redis_range_def)
next
  case False
  then have n: "0 < length xs" by simp
  show ?thesis
  proof (cases "K \<le> length xs")
    case True
    then have "nat (int (length xs) - int K) = length xs - K" by simp
    moreover have "nat (int (length xs) - 1 - (int (length xs) - int K) + 1) = K"
      using True by simp
    ultimately show ?thesis using assms n True
      by (simp add: redis_range_def Let_def)
  next
    case K: False
    then show ?thesis using assms n
      by (simp add: redis_range_def Let_def)
  qed
qed

lemma drop_last_snoc:
  assumes "0 < K"
  shows "drop (length (drop (length ys - K) ys @ [y]) - K) (drop (length ys - K) ys @ [y])
           = drop (length (ys @ [y]) - K) (ys @ [y])"
proof (cases "K \<le> length ys")
  case True
  then have "length (drop (length ys - K) ys @ [y]) - K = 1" using assms by simp
  moreover have "length (ys @ [y]) - K = Suc (length ys - K)" using True by simp
  ultimately show ?thesis using True by (simp add: drop_Suc tl_drop tl_append split: list.split)
next
  case False
  then show ?thesis by simp
qed

lemma redis_encode_mapping_ChatMessage:
  "\<exists>kvs. redis_encode_mapping L (ChatMessage_to_dict L m) = Inr kvs \<and> kvs \<noteq> []"
  by (cases "edited_at m"; cases "reply_to m") (simp_all add: ChatMessage_to_dict_def bind_def)

lemma fold_update_nonempty:
  "h \<noteq> [] \<or> kvs \<noteq> [] \<Longrightarrow> fold (\<lambda>(f, v). AList.update f v) kvs h \<noteq> []"
proof (induction kvs arbitrary: h)
  case Nil
  then show ?case by simp
next
  case (Cons a kvs)
  have "AList.update (fst a) (snd a) h \<noteq> []" by (cases h) auto
  then show ?case using Cons.IH[of "AList.update (fst a) (snd a) h"]
    by (simp add: case_prod_beta)
qed

lemma save_message_to_redis_effect:
  assumes up: "redis_up s"
  shows "\<exists>s'. save_message_to_redis L cfg s m = Inr s' \<and> redis_up s'
      \<and> redis_lists s' = (redis_lists s)(messages_key (dashboard_id m) :=
           redis_range (redis_lists s (messages_key (dashboard_id m)) @ [msg_id m])
             (- message_history_limit cfg) (- 1))
      \<and> redis_hashes s' (ChatMessage_get_redis_key m) \<noteq> []
      \<and> (\<forall>k. k \<noteq> ChatMessage_get_redis_key m \<longrightarrow> redis_hashes s' k = redis_hashes s k)
      \<and> redis_ttl s' (ChatMessage_get_redis_key m) = Some (30 * 24 * 60 * 60)
      \<and> (\<forall>k. k \<noteq> ChatMessage_get_redis_key m \<and> k \<noteq> messages_key (dashboard_id m)
            \<longrightarrow> redis_ttl s' k = redis_ttl s k)"
proof -
  obtain kvs where kvs: "redis_encode_mapping L (ChatMessage_to_dict L m) = Inr kvs" "kvs \<noteq> []"
    using redis_encode_mapping_ChatMessage by blast
  have ne: "ChatMessage_to_dict L m \<noteq> []" by (simp add: ChatMessage_to_dict_def)
  have f: "fold (\<lambda>(f, v). AList.update f v) kvs (redis_hashes s (ChatMessage_get_redis_key m)) \<noteq> []"
    using kvs(2) by (simp add: fold_update_nonempty)
  show ?thesis using up kvs ne f
    by (simp add: save_message_to_redis_def Let_def hset_def bind_def rpush_def ltrim_def
        expire_def key_exists_def ChatMessage_get_redis_key_def)
qed

lemma save_messages_effect:
  assumes "redis_up s" and "\<forall>m\<in>set ms. dashboard_id m = room"
  shows "\<exists>s'. save_messages L cfg s ms = Inr s' \<and> redis_up s'
      \<and> redis_lists s' (messages_key room)
          = foldl (\<lambda>acc i. redis_range (acc @ [i]) (- message_history_limit cfg) (- 1))
              (redis_lists s (messages_key room)) (map msg_id ms)
      \<and> (\<forall>k. redis_hashes s k \<noteq> [] \<longrightarrow> redis_hashes s' k \<noteq> [])
      \<and> (\<forall>m\<in>set ms. redis_hashes s' (ChatMessage_get_redis_key m) \<noteq> [])
      \<and> (\<forall>d i. redis_ttl s (message_key d i) = Some (30 * 24 * 60 * 60)
            \<longrightarrow> redis_ttl s' (message_key d i) = Some (30 * 24 * 60 * 60))
      \<and> (\<forall>m\<in>set ms. redis_ttl s' (ChatMessage_get_redis_key m) = Some (30 * 24 * 60 * 60))"
  using assms
proof (induction ms arbitrary: s)
  case Nil
  then show ?case by simp
next
  case (Cons m ms)
  obtain s1 where s1: "save_message_to_redis L cfg s m = Inr s1" "redis_up s1"
    "redis_lists s1 = (redis_lists s)(messages_key (dashboard_id m) :=
           redis_range (redis_lists s (messages_key (dashboard_id m)) @ [msg_id m])
             (- message_history_limit cfg) (- 1))"
    "redis_hashes s1 (ChatMessage_get_redis_key m) \<noteq> []"
    "\<forall>k. k \<noteq> ChatMessage_get_redis_key m \<longrightarrow> redis_hashes s1 k = redis_hashes s k"
    "redis_ttl s1 (ChatMessage_get_redis_key m) = Some (30 * 24 * 60 * 60)"
    "\<forall>k. k \<noteq> ChatMessage_get_redis_key m \<and> k \<noteq> messages_key (dashboard_id m)
            \<longrightarrow> redis_ttl s1 k = redis_ttl s k"
    using save_message_to_redis_effect[OF Cons.prems(1), of L cfg m] by blast
  have room: "dashboard_id m = room" "\<forall>m\<in>set ms. dashboard_id m = room"
    using Cons.prems(2) by simp_all
  obtain s' where s': "save_messages L cfg s1 ms = Inr s'" "redis_up s'"
    "redis_lists s' (messages_key room)
          = foldl (\<lambda>acc i. redis_range (acc @ [i]) (- message_history_limit cfg) (- 1))
              (redis_lists s1 (messages_key room)) (map msg_id ms)"
    "\<forall>k. redis_hashes s1 k \<noteq> [] \<longrightarrow> redis_hashes s' k \<noteq> []"
    "\<forall>m\<in>set ms. redis_hashes s' (ChatMessage_get_redis_key m) \<noteq> []"
    "\<forall>d i. redis_ttl s1 (message_key d i) = Some (30 * 24 * 60 * 60)
            \<longrightarrow> redis_ttl s' (message_key d i) = Some (30 * 24 * 60 * 60)"
    "\<forall>m\<in>set ms. redis_ttl s' (ChatMessage_get_redis_key m) = Some (30 * 24 * 60 * 60)"
    using Cons.IH[OF s1(2) room(2)] by blast
  have h1: "\<forall>k. redis_hashes s k \<noteq> [] \<longrightarrow> redis_hashes s' k \<noteq> []"
    using s1(4,5) s'(4) by metis
  have h2: "redis_hashes s' (ChatMessage_get_redis_key m) \<noteq> []"
    using s1(4) s'(4) by blast
  have t1: "\<forall>d i. redis_ttl s (message_key d i) = Some (30 * 24 * 60 * 60)
            \<longrightarrow> redis_ttl s' (message_key d i) = Some (30 * 24 * 60 * 60)"
  proof (intro allI impI)
    fix d i assume a: "redis_ttl s (message_key d i) = Some (30 * 24 * 60 * 60)"
    have "redis_ttl s1 (message_key d i) = Some (30 * 24 * 60 * 60)"
    proof (cases "message_key d i = ChatMessage_get_redis_key m")
      case True
      then show ?thesis using s1(6) by simp
    next
      case False
      then show ?thesis using s1(7) a by simp
    qed
    then show "redis_ttl s' (message_key d i) = Some (30 * 24 * 60 * 60)" using s'(6) by blast
  qed
  have t2: "redis_ttl s' (ChatMessage_get_redis_key m) = Some (30 * 24 * 60 * 60)"
    using s1(6) s'(6) by (simp add: ChatMessage_get_redis_key_def)
  show ?case using s1(1,3) s' room h1 h2 t1 t2
    by (simp add: bind_def)
qed

lemma foldl_redis_range_last:
  assumes "0 < K" and "ids \<noteq> []"
  shows "foldl (\<lambda>acc i. redis_range (acc @ [i]) (- int K) (- 1)) xs ids
           = drop (length (xs @ ids) - K) (xs @ ids)"
  using assms(2)
proof (induction ids rule: rev_induct)
  case Nil
  then show ?case by simp
next
  case (snoc i ids)
  show ?case
  proof (cases "ids = []")
    case True
    then show ?thesis using redis_range_last[OF assms(1), of "xs @ [i]"] by simp
  next
    case False
    have "foldl (\<lambda>acc i. redis_range (acc @ [i]) (- int K) (- 1)) xs (ids @ [i])
            = drop (length (drop (length (xs @ ids) - K) (xs @ ids) @ [i]) - K)
                (drop (length (xs @ ids) - K) (xs @ ids) @ [i])"
      using snoc.IH[OF False] redis_range_last[OF assms(1)] by simp
    also have "\<dots> = drop (length ((xs @ ids) @ [i]) - K) ((xs @ ids) @ [i])"
      by (rule drop_last_snoc[OF assms(1)])
    finally show ?thesis by simp
  qed
qed

text \<open>
  For a history limit of at least 1 the trim does what its comment says (keep only the
  last N messages): after K+1 messages are appended to a room whose limit is K, the list
  \<open>messages:{room}\<close> holds exactly K ids, those of the last K messages in order; the
  first message of the batch is no longer listed, yet its hash \<open>message:{room}:{id}\<close>
  is still in Redis, with the expiry of 30 days set on it.
\<close>

theorem history_trimmed_to_limit:
  assumes "redis_up s" and "0 < K" and "message_history_limit cfg = int K"
    and "length ms = Suc K" and "\<forall>m\<in>set ms. dashboard_id m = room"
    and "distinct (map msg_id ms)"
  shows "\<exists>s'. save_messages L cfg s ms = Inr s'
           \<and> redis_lists s' (messages_key room) = map msg_id (tl ms)
           \<and> length (redis_lists s' (messages_key room)) = K
           \<and> msg_id (hd ms) \<notin> set (redis_lists s' (messages_key room))
           \<and> redis_hashes s' (message_key room (msg_id (hd ms))) \<noteq> []
           \<and> redis_ttl s' (message_key room (msg_id (hd ms))) = Some (30 * 24 * 60 * 60)"
proof -
  obtain m rest where ms: "ms = m # rest" using assms(4) by (cases ms) auto
  have ne: "map msg_id ms \<noteq> []" using ms by simp
  obtain s' where s': "save_messages L cfg s ms = Inr s'"
    "redis_lists s' (messages_key room)
          = foldl (\<lambda>acc i. redis_range (acc @ [i]) (- message_history_limit cfg) (- 1))
              (redis_lists s (messages_key room)) (map msg_id ms)"
    "\<forall>m\<in>set ms. redis_hashes s' (ChatMessage_get_redis_key m) \<noteq> []"
    "\<forall>m\<in>set ms. redis_ttl s' (ChatMessage_get_redis_key m) = Some (30 * 24 * 60 * 60)"
    using save_messages_effect[OF assms(1,5), of L cfg] by blast
  have "redis_lists s' (messages_key room)
          = drop (length (redis_lists s (messages_key room) @ map msg_id ms) - K)
              (redis_lists s (messages_key room) @ map msg_id ms)"
    using s'(2) foldl_redis_range_last[OF assms(2) ne] assms(3) by simp
  also have "\<dots> = map msg_id (tl ms)"
    using assms(4) ms by simp
  finally have l: "redis_lists s' (messages_key room) = map msg_id (tl ms)" .
  have k: "ChatMessage_get_redis_key m = message_key room (msg_id m)"
    using assms(5) ms by (simp add: ChatMessage_get_redis_key_def)
  show ?thesis using s'(1,3,4) l k ms assms(4,6) by auto
qed

theorem history_trimmed_to_limit_witness:
  "redis_lists
     (projr (save_messages example_lib (default_settings\<lparr>message_history_limit := 1\<rparr>) empty_state
        [example_message, example_message\<lparr>msg_id := ''m2''\<rparr>])) (messages_key ''d1'') = [''m2'']
   \<and> redis_hashes
     (projr (save_messages example_lib (default_settings\<lparr>message_history_limit := 1\<rparr>) empty_state
        [example_message, example_message\<lparr>msg_id := ''m2''\<rparr>])) (message_key ''d1'' ''m1'') \<noteq> []"
  using history_trimmed_to_limit[of empty_state 1 "default_settings\<lparr>message_history_limit := 1\<rparr>"
      "[example_message, example_message\<lparr>msg_id := ''m2''\<rparr>]" "''d1''" example_lib]
  by (auto simp: empty_state_def example_message_def default_settings_def)

text \<open>
  C5, at the input where the code departs from it. With a history limit of 0 the trim
  \<open>ltrim(list_key, -limit, -1)\<close> is \<open>LTRIM key 0 -1\<close> (\<open>-0\<close> is \<open>0\<close>), which keeps
  the whole list: one message (K+1 for K = 0) appended to an empty room leaves one id in
  \<open>messages:{room}\<close>, not none.
\<close>

theorem history_limit_zero_keeps_all:
  "\<not> isl (save_messages example_lib (default_settings\<lparr>message_history_limit := 0\<rparr>) empty_state
        [example_message])
   \<and> length (redis_lists
     (projr (save_messages example_lib (default_settings\<lparr>message_history_limit := 0\<rparr>) empty_state
        [example_message])) (messages_key ''d1'')) = 1"
  by (simp add: save_message_to_redis_def Let_def hset_def bind_def rpush_def ltrim_def
      expire_def key_exists_def ChatMessage_get_redis_key_def ChatMessage_to_dict_def
      empty_state_def example_message_def default_settings_def redis_range_def)

section \<open>Reading the history\<close>

lemma redis_range_from_head:
  assumes "0 \<le> skip" and "0 < limit"
  shows "redis_range xs skip (skip + limit - 1) = take (nat limit) (drop (nat skip) xs)"
proof (cases "skip \<ge> int (length xs)")
  case True
  then show ?thesis using assms by (simp add: redis_range_def Let_def)
next
  case False
  show ?thesis
  proof (cases "skip + limit - 1 \<ge> int (length xs)")
    case True
    then have "length xs - nat skip \<le> nat limit" using assms by linarith
    moreover have "nat (int (length xs) - 1 - skip + 1) = length xs - nat skip"
      using assms False by linarith
    ultimately show ?thesis using assms False True
      by (simp add: redis_range_def Let_def)
  next
    case b: False
    then show ?thesis using assms False
      by (simp add: redis_range_def Let_def)
  qed
qed

lemma messages_loop_resolves:
  assumes "redis_up s" and "redis_hashes s = redis_hashes s0" and "clock s = clock s0"
    and "redis_lists s = redis_lists s0"
  shows "\<exists>fs s'. messages_loop L d s acc ids
            = Inr (acc @ List.map_filter (\<lambda>(f, i). resolve_message L s0 d f i) (zip fs ids), s')
          \<and> length fs = length ids
          \<and> redis_hashes s' = redis_hashes s0 \<and> redis_lists s' = redis_lists s0"
  using assms
proof (induction ids arbitrary: s acc)
  case Nil
  then show ?case by simp
next
  case (Cons i ids)
  let ?data = "map (\<lambda>(f, v). (f, PStr v)) (redis_hashes s0 (message_key d i))"
  let ?fresh = "uuid4 L (uuid_count s)"
  have hg: "hgetall s (message_key d i) = Inr ?data"
    using Cons.prems by (simp add: hgetall_def)
  show ?case
  proof (cases "?data = []")
    case True
    obtain fs s' where *: "messages_loop L d s acc ids
            = Inr (acc @ List.map_filter (\<lambda>(f, i). resolve_message L s0 d f i) (zip fs ids), s')"
      "length fs = length ids" "redis_hashes s' = redis_hashes s0" "redis_lists s' = redis_lists s0"
      using Cons.IH[OF Cons.prems] by blast
    have "resolve_message L s0 d ?fresh i = None" using True by (simp add: resolve_message_def)
    then show ?thesis using * hg True
      by (intro exI[of _ "?fresh # fs"] exI[of _ s'])
         (simp add: bind_def List.map_filter_simps)
  next
    case False
    show ?thesis
    proof (cases "ChatMessage_from_dict L ?fresh (clock s0) ?data")
      case (Inl e)
      let ?s1 = "logger_error ''Error parsing message'' (next_uuid s)"
      have p: "redis_up ?s1" "redis_hashes ?s1 = redis_hashes s0" "clock ?s1 = clock s0"
        "redis_lists ?s1 = redis_lists s0"
        using Cons.prems by (simp_all add: logger_error_def next_uuid_def)
      obtain fs s' where *: "messages_loop L d ?s1 acc ids
            = Inr (acc @ List.map_filter (\<lambda>(f, i). resolve_message L s0 d f i) (zip fs ids), s')"
        "length fs = length ids" "redis_hashes s' = redis_hashes s0"
        "redis_lists s' = redis_lists s0"
        using Cons.IH[OF p] by blast
      have "resolve_message L s0 d ?fresh i = None"
        using False Inl by (simp add: resolve_message_def)
      then show ?thesis using * hg False Inl Cons.prems(3)
        by (intro exI[of _ "?fresh # fs"] exI[of _ s'])
           (simp add: bind_def List.map_filter_simps)
    next
      case (Inr m)
      let ?s1 = "next_uuid s"
      have p: "redis_up ?s1" "redis_hashes ?s1 = redis_hashes s0" "clock ?s1 = clock s0"
        "redis_lists ?s1 = redis_lists s0"
        using Cons.prems by (simp_all add: next_uuid_def)
      obtain fs s' where *: "messages_loop L d ?s1 (acc @ [m]) ids
            = Inr ((acc @ [m]) @ List.map_filter (\<lambda>(f, i). resolve_message L s0 d f i) (zip fs ids), s')"
        "length fs = length ids" "redis_hashes s' = redis_hashes s0"
        "redis_lists s' = redis_lists s0"
        using Cons.IH[OF p] by blast
      have "resolve_message L s0 d ?fresh i = Some m"
        using False Inr by (simp add: resolve_message_def)
      then show ?thesis using * hg False Inr Cons.prems(3)
        by (intro exI[of _ "?fresh # fs"] exI[of _ s'])
           (simp add: bind_def List.map_filter_simps)
    qed
  qed
qed

text \<open>
  C6. For \<open>skip \<ge> 0\<close> and \<open>limit > 0\<close>, \<open>get_messages_from_redis\<close> reads the ids at
  the positions \<open>skip\<close> to \<open>skip + limit - 1\<close> of \<open>messages:{room}\<close>, counted from the
  head, and returns, in that order, the messages their hashes parse to; an id whose hash
  is missing or does not parse contributes nothing. Redis is left as it was.
\<close>

theorem get_messages_from_head:
  assumes "redis_up s" and "0 \<le> skip" and "0 < limit"
  shows "\<exists>ms s' fs. get_messages_from_redis L s room limit skip = Inr (ms, s')
           \<and> length fs = length (take (nat limit) (drop (nat skip) (redis_lists s (messages_key room))))
           \<and> ms = List.map_filter (\<lambda>(f, i). resolve_message L s room f i)
                    (zip fs (take (nat limit) (drop (nat skip) (redis_lists s (messages_key room)))))
           \<and> redis_hashes s' = redis_hashes s \<and> redis_lists s' = redis_lists s"
proof -
  let ?page = "take (nat limit) (drop (nat skip) (redis_lists s (messages_key room)))"
  have lr: "lrange s (messages_key room) skip (skip + limit - 1) = Inr ?page"
    using assms by (simp add: lrange_def redis_range_from_head)
  obtain fs s' where "messages_loop L room s [] ?page
            = Inr ([] @ List.map_filter (\<lambda>(f, i). resolve_message L s room f i) (zip fs ?page), s')"
    "length fs = length ?page" "redis_hashes s' = redis_hashes s" "redis_lists s' = redis_lists s"
    using messages_loop_resolves[OF assms(1) refl refl refl, of L room "[]" ?page] by blast
  then show ?thesis using lr
    by (intro exI[of _ "List.map_filter (\<lambda>(f, i). resolve_message L s room f i) (zip fs ?page)"]
          exI[of _ s'] exI[of _ fs])
       (simp add: get_messages_from_redis_def bind_def)
qed

theorem get_messages_from_head_witness:
  "redis_up example_history
   \<and> (\<exists>s'. get_messages_from_redis example_lib example_history ''d1'' 3 0
             = Inr ([example_message], s'))"
proof -
  have r: "\<And>f. resolve_message example_lib example_history ''d1'' f ''m0'' = None"
    "\<And>f. resolve_message example_lib example_history ''d1'' f ''m1'' = Some example_message"
    "\<And>f. resolve_message example_lib example_history ''d1'' f ''m2'' = None"
    by (simp_all add: resolve_message_def example_history_def empty_state_def example_lib_def
        example_message_def ChatMessage_from_dict_def convert_timestamp_def convert_flag_def
        dict_set_def bind_def ChatMessage_init_def required_def defaulted_def optional_def
        MessageType_of_def)
  have l: "redis_lists example_history (messages_key ''d1'') = [''m0'', ''m1'', ''m2'']"
    by (simp add: example_history_def)
  have up: "redis_up example_history" by (simp add: example_history_def empty_state_def)
  obtain ms s' fs where *: "get_messages_from_redis example_lib example_history ''d1'' 3 0 = Inr (ms, s')"
    "length fs = 3"
    "ms = List.map_filter (\<lambda>(f, i). resolve_message example_lib example_history ''d1'' f i)
            (zip fs [''m0'', ''m1'', ''m2''])"
    using get_messages_from_head[of example_history 0 3 example_lib "''d1''"] up l by auto
  obtain a b c where "fs = [a, b, c]" using *(2)
    by (auto simp: length_Suc_conv eval_nat_numeral)
  then have "ms = [example_message]" using *(3) r by (simp add: List.map_filter_simps)
  then show ?thesis using *(1) up by simp
qed

section \<open>Clearing the history\<close>

lemma redis_range_all: "redis_range xs 0 (- 1) = xs"
  by (cases "xs = []") (simp_all add: redis_range_def Let_def)

lemma redis_range_Nil: "redis_range [] a b = []"
  by (simp add: redis_range_def Let_def)

lemma length_filter_distinct_split:
  "distinct xs \<Longrightarrow>
     length (filter P xs)
       = (if i \<in> set xs \<and> P i then 1 else 0) + length (filter (\<lambda>j. j \<noteq> i \<and> P j) xs)"
  by (induction xs) auto

lemma length_filter_remdups_Cons:
  "length (filter P (remdups (i # rest)))
     = (if P i then 1 else 0) + length (filter (\<lambda>j. j \<noteq> i \<and> P j) (remdups rest))"
proof (cases "i \<in> set rest")
  case True
  then show ?thesis
    using length_filter_distinct_split[of "remdups rest" P i] by simp
next
  case False
  then have "filter (\<lambda>j. j \<noteq> i \<and> P j) (remdups rest) = filter P (remdups rest)"
    by (intro filter_cong) auto
  then show ?thesis using False by simp
qed

lemma delete_loop_effect:
  assumes "redis_up s"
  shows "\<exists>s'. delete_loop s d c ids
            = Inr (c + int (length (filter (\<lambda>i. key_exists s (message_key d i)) (remdups ids))), s')
          \<and> redis_up s'
          \<and> (\<forall>i\<in>set ids. redis_hashes s' (message_key d i) = [])
          \<and> (\<forall>k. redis_hashes s' k = redis_hashes s k \<or> redis_hashes s' k = [])
          \<and> redis_lists s' (messages_key d) = redis_lists s (messages_key d)"
  using assms
proof (induction ids arbitrary: s c)
  case Nil
  then show ?case by simp
next
  case (Cons i ids)
  let ?k = "message_key d i"
  let ?s1 = "s\<lparr>redis_hashes := (redis_hashes s)(?k := []), redis_lists := (redis_lists s)(?k := []),
              redis_sets := (redis_sets s)(?k := []), redis_ttl := (redis_ttl s)(?k := None)\<rparr>"
  let ?c1 = "if key_exists s ?k then c + 1 else c"
  have rd: "redis_delete s ?k = Inr (if key_exists s ?k then 1 else 0, ?s1)"
    using Cons.prems by (simp add: redis_delete_def)
  have up1: "redis_up ?s1" using Cons.prems by simp
  have ke: "\<And>j. key_exists ?s1 (message_key d j) = (j \<noteq> i \<and> key_exists s (message_key d j))"
    by (auto simp: key_exists_def)
  obtain s' where s': "delete_loop ?s1 d ?c1 ids
            = Inr (?c1 + int (length (filter (\<lambda>i. key_exists ?s1 (message_key d i)) (remdups ids))), s')"
    "redis_up s'" "\<forall>i\<in>set ids. redis_hashes s' (message_key d i) = []"
    "\<forall>k. redis_hashes s' k = redis_hashes ?s1 k \<or> redis_hashes s' k = []"
    "redis_lists s' (messages_key d) = redis_lists ?s1 (messages_key d)"
    using Cons.IH[OF up1, of ?c1] by blast
  have cnt: "?c1 + int (length (filter (\<lambda>i. key_exists ?s1 (message_key d i)) (remdups ids)))
      = c + int (length (filter (\<lambda>i. key_exists s (message_key d i)) (remdups (i # ids))))"
    unfolding ke length_filter_remdups_Cons[of "\<lambda>i. key_exists s (message_key d i)" i ids]
    by simp
  have "redis_hashes ?s1 ?k = []" by simp
  then have hi: "redis_hashes s' ?k = []" using s'(4)[rule_format, of ?k] by presburger
  have hk: "\<forall>k. redis_hashes s' k = redis_hashes s k \<or> redis_hashes s' k = []"
  proof
    fix k show "redis_hashes s' k = redis_hashes s k \<or> redis_hashes s' k = []"
    proof (cases "k = ?k")
      case True
      then show ?thesis using hi by simp
    next
      case False
      then have "redis_hashes ?s1 k = redis_hashes s k" by simp
      then show ?thesis using s'(4)[rule_format, of k] by presburger
    qed
  qed
  have "delete_loop s d c (i # ids) = delete_loop ?s1 d ?c1 ids"
    using rd by (simp add: bind_def)
  then have r: "delete_loop s d c (i # ids)
          = Inr (c + int (length (filter (\<lambda>i. key_exists s (message_key d i)) (remdups (i # ids)))), s')"
    using s'(1) cnt by presburger
  have l: "redis_lists s' (messages_key d) = redis_lists s (messages_key d)"
    using s'(5) by simp
  have a: "\<forall>j\<in>set (i # ids). redis_hashes s' (message_key d j) = []"
    using s'(3) hi by simp
  show ?case using r s'(2) a hk l by blast
qed

text \<open>
  C7. \<open>clear_all_messages\<close> deletes the hash of every id listed in \<open>messages:{room}\<close>
  and then the list itself. Its \<open>cleared_count\<close> is the number of listed ids (each
  counted once) whose key still existed: an id whose hash has expired is not counted. A
  history read right after it returns no message, whatever the limit and the offset.
\<close>

theorem clear_all_messages_count:
  assumes "redis_up s"
  shows "\<exists>n s'. clear_all_messages L s room = Inr (n, s')
           \<and> n = int (length (filter (\<lambda>i. key_exists s (message_key room i))
                                 (remdups (redis_lists s (messages_key room)))))
           \<and> (\<forall>i\<in>set (redis_lists s (messages_key room)).
                  redis_hashes s' (message_key room i) = [])
           \<and> redis_lists s' (messages_key room) = []
           \<and> (\<forall>limit skip. \<exists>s''. get_messages_from_redis L s' room limit skip = Inr ([], s''))"
proof -
  let ?ids = "redis_lists s (messages_key room)"
  let ?n = "int (length (filter (\<lambda>i. key_exists s (message_key room i)) (remdups ?ids)))"
  have lr: "lrange s (messages_key room) 0 (- 1) = Inr ?ids"
    using assms by (simp add: lrange_def redis_range_all)
  obtain s1 where s1: "delete_loop s room 0 ?ids = Inr (?n, s1)" "redis_up s1"
    "\<forall>i\<in>set ?ids. redis_hashes s1 (message_key room i) = []"
    using delete_loop_effect[OF assms, of room 0 ?ids] by auto
  let ?k = "messages_key room"
  let ?s2 = "s1\<lparr>redis_hashes := (redis_hashes s1)(?k := []), redis_lists := (redis_lists s1)(?k := []),
              redis_sets := (redis_sets s1)(?k := []), redis_ttl := (redis_ttl s1)(?k := None)\<rparr>"
  let ?s3 = "broadcast_to_dashboard L ?s2 room (messages_cleared_message L ?s2 room ?n) None"
  have rd: "redis_delete s1 ?k = Inr (if key_exists s1 ?k then 1 else 0, ?s2)"
    using s1(2) by (simp add: redis_delete_def)
  have res: "clear_all_messages L s room = Inr (?n, ?s3)"
    using lr s1(1) rd by (simp add: clear_all_messages_def bind_def Let_def)
  have fr: "frame_rel ?s2 ?s3" by (rule frame_rel_broadcast)
  have up3: "redis_up ?s3" using fr s1(2) by (simp add: frame_rel_def)
  have "redis_lists ?s2 ?k = []" by simp
  then have l3: "redis_lists ?s3 ?k = []"
    using fr unfolding frame_rel_def by metis
  have h3: "\<forall>i\<in>set ?ids. redis_hashes ?s3 (message_key room i) = []"
  proof
    fix i assume "i \<in> set ?ids"
    then have "redis_hashes ?s2 (message_key room i) = []" using s1(3) by simp
    then show "redis_hashes ?s3 (message_key room i) = []"
      using fr unfolding frame_rel_def by metis
  qed
  have rd3: "\<forall>limit skip. \<exists>s''. get_messages_from_redis L ?s3 room limit skip = Inr ([], s'')"
    using up3 l3 by (simp add: get_messages_from_redis_def lrange_def bind_def redis_range_Nil)
  show ?thesis using res h3 l3 rd3 by blast
qed

text \<open>The scenario of the specification: ten listed messages, two expired, eight cleared.\<close>

theorem clear_all_messages_count_witness:
  "redis_up example_ten
   \<and> (\<exists>s'. clear_all_messages example_lib example_ten ''d1'' = Inr (8, s')
          \<and> (\<exists>s''. get_messages_from_redis example_lib s' ''d1'' 50 0 = Inr ([], s'')))"
proof -
  have up: "redis_up example_ten" by (simp add: example_ten_def empty_state_def)
  have l: "redis_lists example_ten (messages_key ''d1'')
             = [''a'', ''b'', ''c'', ''d'', ''e'', ''f'', ''g'', ''h'', ''i'', ''j'']"
    by (simp add: example_ten_def)
  have n: "int (length (filter (\<lambda>i. key_exists example_ten (message_key ''d1'' i))
             (remdups [''a'', ''b'', ''c'', ''d'', ''e'', ''f'', ''g'', ''h'', ''i'', ''j'']))) = 8"
    by (simp add: key_exists_def example_ten_def empty_state_def)
  show ?thesis
    using clear_all_messages_count[OF up, of example_lib "''d1''"] up
    unfolding l n by blast
qed

section \<open>The presence store\<close>

lemma users_loop_resolves:
  assumes "redis_up s" and "redis_hashes s = redis_hashes s0" and "clock s = clock s0"
  shows "\<exists>s'. users_loop L d s acc ids = Inr (acc @ List.map_filter (resolve_user L s0 d) ids, s')"
  using assms
proof (induction ids arbitrary: s acc)
  case Nil
  then show ?case by (simp add: List.map_filter_simps)
next
  case (Cons u ids)
  let ?data = "map (\<lambda>(f, v). (f, PStr v)) (redis_hashes s0 (user_key d u))"
  have hg: "hgetall s (user_key d u) = Inr ?data"
    using Cons.prems by (simp add: hgetall_def)
  show ?case
  proof (cases "?data = []")
    case True
    obtain s' where "users_loop L d s acc ids
        = Inr (acc @ List.map_filter (resolve_user L s0 d) ids, s')"
      using Cons.IH[OF Cons.prems] by blast
    moreover have "resolve_user L s0 d u = None" using True by (simp add: resolve_user_def)
    ultimately show ?thesis using hg True by (simp add: bind_def List.map_filter_simps)
  next
    case False
    show ?thesis
    proof (cases "ConnectedUser_from_dict L (clock s0) ?data")
      case (Inl e)
      let ?s1 = "logger_error ''Error parsing user'' s"
      have p: "redis_up ?s1" "redis_hashes ?s1 = redis_hashes s0" "clock ?s1 = clock s0"
        using Cons.prems by (simp_all add: logger_error_def)
      obtain s' where "users_loop L d ?s1 acc ids
          = Inr (acc @ List.map_filter (resolve_user L s0 d) ids, s')"
        using Cons.IH[OF p] by blast
      moreover have "resolve_user L s0 d u = None"
        using False Inl by (simp add: resolve_user_def)
      ultimately show ?thesis using hg False Inl Cons.prems(3)
        by (simp add: bind_def List.map_filter_simps)
    next
      case (Inr x)
      obtain s' where "users_loop L d s (acc @ [x]) ids
          = Inr ((acc @ [x]) @ List.map_filter (resolve_user L s0 d) ids, s')"
        using Cons.IH[OF Cons.prems] by blast
      moreover have "resolve_user L s0 d u = Some x"
        using False Inr by (simp add: resolve_user_def)
      ultimately show ?thesis using hg False Inr Cons.prems(3)
        by (simp add: bind_def List.map_filter_simps)
    qed
  qed
qed

lemma get_connected_users_from_redis_resolves:
  assumes "redis_up s"
  shows "\<exists>s'. get_connected_users_from_redis L s d
           = Inr (List.map_filter (resolve_user L s d) (redis_sets s (connected_users_key d)), s')"
  using users_loop_resolves[OF assms refl refl, of L d "[]"] assms
  by (simp add: get_connected_users_from_redis_def smembers_def bind_def)

lemma map_of_fold_update:
  "map_of (fold (\<lambda>(f, v). AList.update f v) kvs h) k
     = (case map_of (rev kvs) k of Some v \<Rightarrow> Some v | None \<Rightarrow> map_of h k)"
proof (induction kvs arbitrary: h)
  case Nil
  then show ?case by simp
next
  case (Cons a kvs)
  show ?case
    by (cases a) (auto simp: Cons.IH update_conv' map_add_def split: option.splits)
qed

lemma map_of_PStr: "map_of (map (\<lambda>(f, v). (f, PStr v)) h) k = map_option PStr (map_of h k)"
  by (induction h) auto

lemma ConnectedUser_from_dict_lookup:
  assumes "map_of d ''user_id'' = Some (PStr u)"
    and "map_of d ''dashboard_id'' = Some (PStr dash)"
    and "map_of d ''username'' = Some (PStr n)"
    and "map_of d ''status'' = Some (PStr (UserStatus_value st))"
    and "map_of d ''connected_at'' = Some (PStr c)"
    and "map_of d ''last_seen'' = Some (PStr l)"
    and "parse_datetime L c = Some ct"
    and "parse_datetime L l = Some lt"
    and "map_of d ''socket_id'' = map_option PStr sock"
  shows "ConnectedUser_from_dict L now d
           = Inr \<lparr> cu_user_id = u, cu_dashboard_id = dash, cu_username = n, status = st,
                   connected_at = ct, last_seen = lt, socket_id = sock \<rparr>"
  using assms
  by (cases sock)
     (simp_all add: ConnectedUser_from_dict_def convert_timestamp_def bind_def
       ConnectedUser_init_def required_def defaulted_def optional_def UserStatus_of_value)

lemma redis_encode_mapping_ConnectedUser:
  "redis_encode_mapping L (ConnectedUser_to_dict L u)
     = Inr ([(''user_id'', cu_user_id u), (''dashboard_id'', cu_dashboard_id u),
             (''username'', cu_username u), (''status'', UserStatus_value (status u)),
             (''connected_at'', repr_float L (dt_timestamp L (connected_at u))),
             (''last_seen'', repr_float L (dt_timestamp L (last_seen u)))]
            @ (case socket_id u of None \<Rightarrow> [] | Some x \<Rightarrow> [(''socket_id'', x)]))"
  by (cases "socket_id u") (simp_all add: ConnectedUser_to_dict_def bind_def)

lemma save_connected_user_to_redis_effect:
  assumes "redis_up s"
  shows "\<exists>s1. save_connected_user_to_redis L s u = Inr s1 \<and> redis_up s1 \<and> clock s1 = clock s
      \<and> redis_sets s1 (connected_users_key (cu_dashboard_id u))
          = (if cu_user_id u \<in> set (redis_sets s (connected_users_key (cu_dashboard_id u)))
             then redis_sets s (connected_users_key (cu_dashboard_id u))
             else redis_sets s (connected_users_key (cu_dashboard_id u)) @ [cu_user_id u])
      \<and> redis_hashes s1 (user_key (cu_dashboard_id u) (cu_user_id u))
          = fold (\<lambda>(f, v). AList.update f v)
              ([(''user_id'', cu_user_id u), (''dashboard_id'', cu_dashboard_id u),
                (''username'', cu_username u), (''status'', UserStatus_value (status u)),
                (''connected_at'', repr_float L (dt_timestamp L (connected_at u))),
                (''last_seen'', repr_float L (dt_timestamp L (last_seen u)))]
               @ (case socket_id u of None \<Rightarrow> [] | Some x \<Rightarrow> [(''socket_id'', x)]))
              (redis_hashes s (user_key (cu_dashboard_id u) (cu_user_id u)))
      \<and> (\<forall>k. k \<noteq> user_key (cu_dashboard_id u) (cu_user_id u)
            \<longrightarrow> redis_hashes s1 k = redis_hashes s k)
      \<and> redis_ttl s1 (user_key (cu_dashboard_id u) (cu_user_id u)) = Some (60 * 60)"
proof -
  have ne: "ConnectedUser_to_dict L u \<noteq> []" by (simp add: ConnectedUser_to_dict_def)
  have f: "fold (\<lambda>(f, v). AList.update f v)
              ([(''user_id'', cu_user_id u), (''dashboard_id'', cu_dashboard_id u),
                (''username'', cu_username u), (''status'', UserStatus_value (status u)),
                (''connected_at'', repr_float L (dt_timestamp L (connected_at u))),
                (''last_seen'', repr_float L (dt_timestamp L (last_seen u)))]
               @ (case socket_id u of None \<Rightarrow> [] | Some x \<Rightarrow> [(''socket_id'', x)]))
              (redis_hashes s (user_key (cu_dashboard_id u) (cu_user_id u))) \<noteq> []"
    by (rule fold_update_nonempty) simp
  show ?thesis using assms ne f
    unfolding save_connected_user_to_redis_def Let_def hset_def
      redis_encode_mapping_ConnectedUser bind_def sadd_def expire_def key_exists_def
      ConnectedUser_get_redis_key_def
    by (simp del: fold_simps fold_append)
qed

lemma resolve_user_after_save:
  assumes "redis_hashes s1 (user_key (cu_dashboard_id u) (cu_user_id u))
          = fold (\<lambda>(f, v). AList.update f v)
              ([(''user_id'', cu_user_id u), (''dashboard_id'', cu_dashboard_id u),
                (''username'', cu_username u), (''status'', UserStatus_value (status u)),
                (''connected_at'', repr_float L (dt_timestamp L (connected_at u))),
                (''last_seen'', repr_float L (dt_timestamp L (last_seen u)))]
               @ (case socket_id u of None \<Rightarrow> [] | Some x \<Rightarrow> [(''socket_id'', x)])) h"
    and "parse_datetime L (repr_float L (dt_timestamp L (connected_at u))) = Some c"
    and "parse_datetime L (repr_float L (dt_timestamp L (last_seen u))) = Some l"
  shows "resolve_user L s1 (cu_dashboard_id u) (cu_user_id u)
           = Some (u\<lparr>connected_at := c, last_seen := l,
                     socket_id := (case socket_id u of None \<Rightarrow> map_of h ''socket_id''
                                  | Some x \<Rightarrow> Some x)\<rparr>)"
proof -
  let ?h = "redis_hashes s1 (user_key (cu_dashboard_id u) (cu_user_id u))"
  let ?d = "map (\<lambda>(f, v). (f, PStr v)) ?h"
  have ne: "?h \<noteq> []" unfolding assms(1) by (rule fold_update_nonempty) simp
  have m: "map_of ?h ''user_id'' = Some (cu_user_id u)"
    "map_of ?h ''dashboard_id'' = Some (cu_dashboard_id u)"
    "map_of ?h ''username'' = Some (cu_username u)"
    "map_of ?h ''status'' = Some (UserStatus_value (status u))"
    "map_of ?h ''connected_at'' = Some (repr_float L (dt_timestamp L (connected_at u)))"
    "map_of ?h ''last_seen'' = Some (repr_float L (dt_timestamp L (last_seen u)))"
    "map_of ?h ''socket_id''
       = (case socket_id u of None \<Rightarrow> map_of h ''socket_id'' | Some x \<Rightarrow> Some x)"
    unfolding assms(1) map_of_fold_update by (simp_all split: option.splits)
  have "ConnectedUser_from_dict L (clock s1) ?d
          = Inr \<lparr> cu_user_id = cu_user_id u, cu_dashboard_id = cu_dashboard_id u,
                  cu_username = cu_username u, status = status u,
                  connected_at = c, last_seen = l,
                  socket_id = (case socket_id u of None \<Rightarrow> map_of h ''socket_id''
                               | Some x \<Rightarrow> Some x) \<rparr>"
    by (rule ConnectedUser_from_dict_lookup[OF _ _ _ _ _ _ assms(2,3)])
       (simp_all add: map_of_PStr m)
  then show ?thesis using ne by (simp add: resolve_user_def)
qed

lemma remove_user_from_redis_effect:
  assumes "redis_up s"
  shows "\<exists>s1. remove_user_from_redis s d u = Inr s1 \<and> redis_up s1 \<and> clock s1 = clock s
      \<and> redis_hashes s1 = (redis_hashes s)(user_key d u := [])
      \<and> redis_sets s1 (connected_users_key d) = removeAll u (redis_sets s (connected_users_key d))"
  using assms
  by (simp add: remove_user_from_redis_def redis_delete_def srem_def bind_def Let_def)

lemma map_filter_eq:
  "(\<And>x. x \<in> set xs \<Longrightarrow> f x = g x) \<Longrightarrow> List.map_filter f xs = List.map_filter g xs"
  by (induction xs) (auto simp: List.map_filter_simps split: option.splits)

lemma set_map_filter:
  "set (List.map_filter f xs) = {y. \<exists>x\<in>set xs. f x = Some y}"
  by (induction xs) (auto simp: List.map_filter_simps split: option.splits)

subsection \<open>Records under their own key\<close>

lemma append_colon_inject:
  assumes "c \<notin> set xs" and "c \<notin> set ys" and "xs @ c # us = ys @ c # vs"
  shows "xs = ys \<and> us = vs"
  using assms
proof (induction xs arbitrary: ys)
  case Nil
  then show ?case by (cases ys) auto
next
  case (Cons x xs)
  then show ?case by (cases ys) auto
qed

lemma user_key_inject_colon_free:
  assumes "colon_free d" and "colon_free d'" and "user_key d u = user_key d' u'"
  shows "d = d' \<and> u = u'"
  using append_colon_inject[of "CHR '':''" d d' u u'] assms
  by (simp add: colon_free_def user_key_def)

lemma bind_Inr: "bind r f = Inr y \<longleftrightarrow> (\<exists>x. r = Inr x \<and> f x = Inr y)"
  by (cases r) (simp_all add: bind_def)

lemma convert_timestamp_text:
  "convert_timestamp L b k (map (\<lambda>(f, v). (f, PStr v)) h) = Inr (map (\<lambda>(f, v). (f, PStr v)) h)"
  by (cases "map_of h k") (simp_all add: convert_timestamp_def map_of_PStr)

lemma required_str_Inr:
  "required validate_str d k = Inr u \<Longrightarrow> map_of d k = Some (PStr u)"
  by (cases "map_of d k"; cases "the (map_of d k)") (simp_all add: required_def)

lemma ConnectedUser_init_user_id:
  assumes "ConnectedUser_init L now d = Inr x"
  shows "map_of d ''user_id'' = Some (PStr (cu_user_id x))"
proof -
  obtain u where u: "required validate_str d ''user_id'' = Inr u" and "cu_user_id x = u"
    using assms unfolding ConnectedUser_init_def bind_Inr by auto
  then show ?thesis using required_str_Inr by blast
qed

lemma resolve_user_user_id:
  assumes "resolve_user L s d m = Some x"
  shows "redis_hashes s (user_key d m) \<noteq> []
       \<and> map_of (redis_hashes s (user_key d m)) ''user_id'' = Some (cu_user_id x)"
proof -
  let ?h = "redis_hashes s (user_key d m)"
  let ?data = "map (\<lambda>(f, v). (f, PStr v)) ?h"
  have ne: "?h \<noteq> []" using assms by (auto simp: resolve_user_def Let_def)
  have "ConnectedUser_from_dict L (clock s) ?data = Inr x"
    using assms ne by (simp add: resolve_user_def Let_def split: sum.splits)
  then have "ConnectedUser_init L (clock s) ?data = Inr x"
    by (simp add: ConnectedUser_from_dict_def convert_timestamp_text bind_def)
  then have "map_of ?data ''user_id'' = Some (PStr (cu_user_id x))"
    by (rule ConnectedUser_init_user_id)
  then show ?thesis using ne by (auto simp: map_of_PStr)
qed

lemma presence_inv_empty: "presence_inv empty_state"
  by (simp add: presence_inv_def empty_state_def)

lemma presence_inv_save:
  assumes "presence_inv s" and "colon_free (cu_dashboard_id usr)"
    and "save_connected_user_to_redis L s usr = Inr s1"
  shows "presence_inv s1"
proof -
  let ?k = "user_key (cu_dashboard_id usr) (cu_user_id usr)"
  have up: "redis_up s" using assms(3)
    by (auto simp: save_connected_user_to_redis_def Let_def hset_def bind_def split: if_splits sum.splits)
  obtain s1' where e: "save_connected_user_to_redis L s usr = Inr s1'"
    "redis_hashes s1' ?k
          = fold (\<lambda>(f, v). AList.update f v)
              ([(''user_id'', cu_user_id usr), (''dashboard_id'', cu_dashboard_id usr),
                (''username'', cu_username usr), (''status'', UserStatus_value (status usr)),
                (''connected_at'', repr_float L (dt_timestamp L (connected_at usr))),
                (''last_seen'', repr_float L (dt_timestamp L (last_seen usr)))]
               @ (case socket_id usr of None \<Rightarrow> [] | Some x \<Rightarrow> [(''socket_id'', x)]))
              (redis_hashes s ?k)"
    "\<forall>k. k \<noteq> ?k \<longrightarrow> redis_hashes s1' k = redis_hashes s k"
    using save_connected_user_to_redis_effect[OF up, of L usr] by blast
  have s1: "s1' = s1" using e(1) assms(3) by simp
  have own: "map_of (redis_hashes s1 ?k) ''user_id'' = Some (cu_user_id usr)"
    unfolding s1[symmetric] e(2) map_of_fold_update by (simp split: option.splits)
  show ?thesis unfolding presence_inv_def
  proof (intro allI impI)
    fix d u assume d: "colon_free d"
    show "redis_hashes s1 (user_key d u) = []
          \<or> map_of (redis_hashes s1 (user_key d u)) ''user_id'' = Some u"
    proof (cases "user_key d u = ?k")
      case True
      then have "u = cu_user_id usr"
        using user_key_inject_colon_free[OF d assms(2)] by blast
      then show ?thesis using own True by simp
    next
      case False
      then have "redis_hashes s1 (user_key d u) = redis_hashes s (user_key d u)"
        using e(3) s1 by blast
      then show ?thesis using assms(1) d unfolding presence_inv_def by metis
    qed
  qed
qed

lemma presence_inv_remove:
  assumes "presence_inv s" and "remove_user_from_redis s d u = Inr s1"
  shows "presence_inv s1"
proof -
  have up: "redis_up s" using assms(2)
    by (auto simp: remove_user_from_redis_def redis_delete_def bind_def split: if_splits)
  have "redis_hashes s1 = (redis_hashes s)(user_key d u := [])"
    using remove_user_from_redis_effect[OF up, of d u] assms(2) by auto
  then show ?thesis using assms(1) unfolding presence_inv_def by auto
qed

lemma presence_put_list_remove_consistent:
  assumes "redis_up s"
    and "parse_datetime L (repr_float L (dt_timestamp L (connected_at usr))) = Some c"
    and "parse_datetime L (repr_float L (dt_timestamp L (last_seen usr))) = Some l"
    and "\<forall>m x. m \<in> set (redis_sets s (connected_users_key room))
            \<longrightarrow> resolve_user L s room m = Some x \<longrightarrow> cu_user_id x = m"
  shows "(\<exists>s1 xs s2 x. save_connected_user_to_redis L s usr = Inr s1
            \<and> get_connected_users_from_redis L s1 (cu_dashboard_id usr) = Inr (xs, s2)
            \<and> x \<in> set xs
            \<and> x = usr\<lparr>connected_at := c, last_seen := l, socket_id := socket_id x\<rparr>)
       \<and> (\<exists>s1 xs s2. remove_user_from_redis s room u = Inr s1
            \<and> redis_hashes s1 (user_key room u) = []
            \<and> u \<notin> set (redis_sets s1 (connected_users_key room))
            \<and> get_connected_users_from_redis L s1 room = Inr (xs, s2)
            \<and> xs = List.map_filter (resolve_user L s room)
                     (removeAll u (redis_sets s (connected_users_key room)))
            \<and> u \<notin> cu_user_id ` set xs)
       \<and> (\<exists>xs s2. get_connected_users_from_redis L s room = Inr (xs, s2)
            \<and> xs = List.map_filter (resolve_user L s room)
                     (redis_sets s (connected_users_key room)))"
proof (intro conjI)
  let ?d = "cu_dashboard_id usr" and ?u = "cu_user_id usr"
  obtain s1 where s1: "save_connected_user_to_redis L s usr = Inr s1" "redis_up s1"
    "?u \<in> set (redis_sets s1 (connected_users_key ?d))"
    and h: "redis_hashes s1 (user_key ?d ?u)
          = fold (\<lambda>(f, v). AList.update f v)
              ([(''user_id'', cu_user_id usr), (''dashboard_id'', cu_dashboard_id usr),
                (''username'', cu_username usr), (''status'', UserStatus_value (status usr)),
                (''connected_at'', repr_float L (dt_timestamp L (connected_at usr))),
                (''last_seen'', repr_float L (dt_timestamp L (last_seen usr)))]
               @ (case socket_id usr of None \<Rightarrow> [] | Some x \<Rightarrow> [(''socket_id'', x)]))
              (redis_hashes s (user_key ?d ?u))"
    using save_connected_user_to_redis_effect[OF assms(1), of L usr] by (auto split: if_splits)
  let ?x = "usr\<lparr>connected_at := c, last_seen := l,
              socket_id := (case socket_id usr of
                None \<Rightarrow> map_of (redis_hashes s (user_key ?d ?u)) ''socket_id''
              | Some x \<Rightarrow> Some x)\<rparr>"
  have r: "resolve_user L s1 ?d ?u = Some ?x"
    by (rule resolve_user_after_save[OF h assms(2,3)])
  obtain s2 where s2: "get_connected_users_from_redis L s1 ?d
      = Inr (List.map_filter (resolve_user L s1 ?d) (redis_sets s1 (connected_users_key ?d)), s2)"
    using get_connected_users_from_redis_resolves[OF s1(2), of L ?d] by blast
  have "?x \<in> set (List.map_filter (resolve_user L s1 ?d) (redis_sets s1 (connected_users_key ?d)))"
    using s1(3) r by (auto simp: set_map_filter)
  moreover have "?x = usr\<lparr>connected_at := c, last_seen := l, socket_id := socket_id ?x\<rparr>"
    by simp
  ultimately show "\<exists>s1 xs s2 x. save_connected_user_to_redis L s usr = Inr s1
            \<and> get_connected_users_from_redis L s1 (cu_dashboard_id usr) = Inr (xs, s2)
            \<and> x \<in> set xs
            \<and> x = usr\<lparr>connected_at := c, last_seen := l, socket_id := socket_id x\<rparr>"
    using s1(1) s2 by blast
next
  let ?ms = "redis_sets s (connected_users_key room)"
  obtain s1 where s1: "remove_user_from_redis s room u = Inr s1" "redis_up s1"
    "clock s1 = clock s" "redis_hashes s1 = (redis_hashes s)(user_key room u := [])"
    "redis_sets s1 (connected_users_key room) = removeAll u ?ms"
    using remove_user_from_redis_effect[OF assms(1), of room u] by blast
  obtain s2 where s2: "get_connected_users_from_redis L s1 room
      = Inr (List.map_filter (resolve_user L s1 room) (removeAll u ?ms), s2)"
    using get_connected_users_from_redis_resolves[OF s1(2), of L room] s1(5) by auto
  have eq: "List.map_filter (resolve_user L s1 room) (removeAll u ?ms)
          = List.map_filter (resolve_user L s room) (removeAll u ?ms)"
  proof (rule map_filter_eq)
    fix m assume "m \<in> set (removeAll u ?ms)"
    then have "m \<noteq> u" by simp
    then show "resolve_user L s1 room m = resolve_user L s room m"
      using s1(3,4) by (simp add: resolve_user_def)
  qed
  have nu: "u \<notin> cu_user_id ` set (List.map_filter (resolve_user L s room) (removeAll u ?ms))"
  proof
    assume "u \<in> cu_user_id ` set (List.map_filter (resolve_user L s room) (removeAll u ?ms))"
    then obtain m x where "m \<in> set ?ms" "m \<noteq> u" "resolve_user L s room m = Some x"
      "cu_user_id x = u"
      by (auto simp: set_map_filter)
    then show False using assms(4) by blast
  qed
  show "\<exists>s1 xs s2. remove_user_from_redis s room u = Inr s1
            \<and> redis_hashes s1 (user_key room u) = []
            \<and> u \<notin> set (redis_sets s1 (connected_users_key room))
            \<and> get_connected_users_from_redis L s1 room = Inr (xs, s2)
            \<and> xs = List.map_filter (resolve_user L s room) (removeAll u ?ms)
            \<and> u \<notin> cu_user_id ` set xs"
    using s1(1,4,5) s2 eq nu by auto
next
  show "\<exists>xs s2. get_connected_users_from_redis L s room = Inr (xs, s2)
            \<and> xs = List.map_filter (resolve_user L s room)
                     (redis_sets s (connected_users_key room))"
    using get_connected_users_from_redis_resolves[OF assms(1), of L room] by blast
qed

text \<open>
  C9, for rooms whose id has no colon. With Redis answering and the two timestamps
  readable from their stored text: after \<open>save_connected_user_to_redis\<close> (put) the list
  of the user's room holds the user's record (the timestamps as they are read back; the
  \<open>socket_id\<close> may be the one an earlier record left in the hash); after
  \<open>remove_user_from_redis\<close> the hash \<open>user:{room}:{user}\<close> is gone, the user is no
  member of \<open>connected_users:{room}\<close>, the list is made of the other members' records,
  and no record of the user is listed, in a store where the presence hashes of colon-free
  rooms carry the user id of their key (\<open>presence_inv\<close>: true of the empty store and
  kept by put into such a room and by remove); and the list is always what the members'
  hashes parse to, a member whose hash is missing or does not parse being skipped.
\<close>

theorem presence_put_list_remove:
  assumes "redis_up s"
    and "parse_datetime L (repr_float L (dt_timestamp L (connected_at usr))) = Some c"
    and "parse_datetime L (repr_float L (dt_timestamp L (last_seen usr))) = Some l"
    and "presence_inv s" and "colon_free room"
  shows "(\<exists>s1 xs s2 x. save_connected_user_to_redis L s usr = Inr s1
            \<and> get_connected_users_from_redis L s1 (cu_dashboard_id usr) = Inr (xs, s2)
            \<and> x \<in> set xs
            \<and> x = usr\<lparr>connected_at := c, last_seen := l, socket_id := socket_id x\<rparr>)
       \<and> (\<exists>s1 xs s2. remove_user_from_redis s room u = Inr s1
            \<and> redis_hashes s1 (user_key room u) = []
            \<and> u \<notin> set (redis_sets s1 (connected_users_key room))
            \<and> get_connected_users_from_redis L s1 room = Inr (xs, s2)
            \<and> xs = List.map_filter (resolve_user L s room)
                     (removeAll u (redis_sets s (connected_users_key room)))
            \<and> u \<notin> cu_user_id ` set xs)
       \<and> (\<exists>xs s2. get_connected_users_from_redis L s room = Inr (xs, s2)
            \<and> xs = List.map_filter (resolve_user L s room)
                     (redis_sets s (connected_users_key room)))"
proof -
  have "\<forall>m x. m \<in> set (redis_sets s (connected_users_key room))
            \<longrightarrow> resolve_user L s room m = Some x \<longrightarrow> cu_user_id x = m"
  proof (intro allI impI)
    fix m x assume "resolve_user L s room m = Some x"
    then have "redis_hashes s (user_key room m) \<noteq> []"
      "map_of (redis_hashes s (user_key room m)) ''user_id'' = Some (cu_user_id x)"
      using resolve_user_user_id by blast+
    then show "cu_user_id x = m"
      using assms(4,5) unfolding presence_inv_def by (metis option.inject)
  qed
  then show ?thesis by (rule presence_put_list_remove_consistent[OF assms(1,2,3)])
qed

text \<open>
  The witness: the empty store, then \<open>example_user\<close> put into room \<open>d1\<close>; the lemmas
  above give \<open>presence_inv\<close> of that store. A second user is put, and the first removed.
\<close>

theorem presence_put_list_remove_witness:
  "(\<exists>s1 xs s2 x.
       save_connected_user_to_redis example_lib
         (projr (save_connected_user_to_redis example_lib empty_state example_user))
         (example_user\<lparr>cu_user_id := ''u2''\<rparr>) = Inr s1
       \<and> get_connected_users_from_redis example_lib s1 ''d1'' = Inr (xs, s2)
       \<and> x \<in> set xs \<and> cu_user_id x = ''u2'')
   \<and> (\<exists>s1 xs s2.
       remove_user_from_redis
         (projr (save_connected_user_to_redis example_lib empty_state example_user))
         ''d1'' ''u1'' = Inr s1
       \<and> redis_hashes s1 (user_key ''d1'' ''u1'') = []
       \<and> ''u1'' \<notin> set (redis_sets s1 (connected_users_key ''d1''))
       \<and> get_connected_users_from_redis example_lib s1 ''d1'' = Inr (xs, s2)
       \<and> ''u1'' \<notin> cu_user_id ` set xs)"
proof -
  define S where "S = projr (save_connected_user_to_redis example_lib empty_state example_user)"
  define U where "U = example_user\<lparr>cu_user_id := ''u2''\<rparr>"
  define D where "D = ''d1''"
  define V where "V = ''u1''"
  have up0: "redis_up empty_state" by (simp add: empty_state_def)
  obtain s0 where s0: "save_connected_user_to_redis example_lib empty_state example_user = Inr s0"
    "redis_up s0"
    using save_connected_user_to_redis_effect[OF up0, of example_lib example_user] by blast
  have s: "S = s0" using s0(1) by (simp add: S_def)
  have cf: "colon_free D" "colon_free (cu_dashboard_id example_user)"
    by (simp_all add: colon_free_def example_user_def D_def)
  have inv: "presence_inv S"
    unfolding s by (rule presence_inv_save[OF presence_inv_empty cf(2) s0(1)])
  have up: "redis_up S" unfolding s by (rule s0(2))
  have p: "parse_datetime example_lib (repr_float example_lib
             (dt_timestamp example_lib (connected_at U))) = Some 3"
    "parse_datetime example_lib (repr_float example_lib
             (dt_timestamp example_lib (last_seen U))) = Some 4"
    by (simp_all add: example_lib_def example_user_def U_def)
  have cu: "cu_dashboard_id U = D" "cu_user_id U = ''u2''"
    by (simp_all add: example_user_def U_def D_def)
  note t = presence_put_list_remove[OF up p inv cf(1), of V]
  obtain s1 xs s2 x where a: "save_connected_user_to_redis example_lib S U = Inr s1"
    "get_connected_users_from_redis example_lib s1 D = Inr (xs, s2)" "x \<in> set xs"
    "x = U\<lparr>connected_at := 3, last_seen := 4, socket_id := socket_id x\<rparr>"
    using t[THEN conjunct1] unfolding cu by blast
  have "cu_user_id x = ''u2''"
    using arg_cong[OF a(4), of cu_user_id] by (simp add: cu)
  then have A: "\<exists>s1 xs s2 x. save_connected_user_to_redis example_lib S U = Inr s1
       \<and> get_connected_users_from_redis example_lib s1 D = Inr (xs, s2)
       \<and> x \<in> set xs \<and> cu_user_id x = ''u2''"
    using a(1,2,3) by blast
  have B: "\<exists>s1 xs s2. remove_user_from_redis S D V = Inr s1
       \<and> redis_hashes s1 (user_key D V) = []
       \<and> V \<notin> set (redis_sets s1 (connected_users_key D))
       \<and> get_connected_users_from_redis example_lib s1 D = Inr (xs, s2)
       \<and> V \<notin> cu_user_id ` set xs"
    using t[THEN conjunct2, THEN conjunct1] by blast
  show ?thesis using A B unfolding S_def U_def D_def V_def by (rule conjI)
qed

text \<open>
  A store the claim C9 does not hold for, reached through the code: after the two puts
  and the remove of \<open>example_collision\<close>, user \<open>c\<close> has been removed from room \<open>a\<close>,
  and the list of room \<open>a\<close> is one record whose user id is \<open>c\<close> (read through the
  member \<open>b:c\<close>, whose key \<open>user:a:b:c\<close> is also that of user \<open>c\<close> in room \<open>a:b\<close>).
\<close>

theorem presence_key_collision_counterexample:
  "\<not> isl (get_connected_users_from_redis example_lib example_collision ''a'')
   \<and> map cu_user_id (fst (projr (get_connected_users_from_redis example_lib example_collision ''a'')))
       = [''c'']"
  by (simp add: example_collision_def save_connected_user_to_redis_def
      remove_user_from_redis_def get_connected_users_from_redis_def
      hset_def sadd_def expire_def redis_delete_def srem_def smembers_def hgetall_def
      key_exists_def bind_def Let_def ConnectedUser_to_dict_def ConnectedUser_get_redis_key_def
      user_key_def connected_users_key_def empty_state_def example_user_def example_lib_def
      ConnectedUser_from_dict_def convert_timestamp_def ConnectedUser_init_def required_def
      defaulted_def optional_def UserStatus_of_def)

section \<open>Replacing a connection\<close>

text \<open>
  C4, at the input where the code departs from it. After \<open>ws2\<close> has replaced \<open>ws1\<close>
  under (\<open>d1\<close>, \<open>u1\<close>), \<open>disconnect\<close> of the orphaned \<open>ws1\<close> deletes the entry
  of \<open>u1\<close>, which is \<open>ws2\<close>: the room leaves \<open>active_connections\<close> while \<open>ws2\<close>
  keeps its reverse entry, the presence record of \<open>u1\<close> is deleted, and a later
  broadcast to the room reaches no one.
\<close>

theorem orphan_disconnect_removes_replacement:
  "active_connections example_replaced ''d1'' = Some [(''u1'', ''ws2'')]
   \<and> active_connections (disconnect example_lib example_replaced ''ws1'') ''d1'' = None
   \<and> map_of (connection_info (disconnect example_lib example_replaced ''ws1'')) ''ws1'' = None
   \<and> map_of (connection_info (disconnect example_lib example_replaced ''ws1'')) ''ws2''
        = Some (''d1'', ''u1'', ''A'')
   \<and> redis_hashes (disconnect example_lib example_replaced ''ws1'') (user_key ''d1'' ''u1'') = []
   \<and> broadcast_to_dashboard example_lib (disconnect example_lib example_replaced ''ws1'')
        ''d1'' (PStr ''hello'') None
        = disconnect example_lib example_replaced ''ws1''"
  by (simp add: example_replaced_def registry_evals)

section \<open>Exceptions in the receive loop\<close>










end
